theory Spec2Isabelle
  imports Complex_Main "HOL-Library.Sublist"
begin

section \<open>Values and errors\<close>

text \<open>
  The module \<^verbatim>\<open>motion.py\<close> works on NumPy arrays of brightness samples. Samples,
  keypoint coordinates and flow components are modelled as exact reals; a result of a
  NumPy division, which can be non-finite, is an \<open>npfloat\<close>. Every exception the code
  can raise is a value of \<open>error\<close>, returned as \<open>Inl\<close>.
\<close>

datatype error =
    AssertionError
  | ValueError
  | LinAlgError
  | UnboundLocalError
  | OverflowError
  | IndexError

datatype npfloat = Fin real | PInf | NInf | NaN

fun np_div :: "real \<Rightarrow> real \<Rightarrow> npfloat" where
  "np_div a b =
     (if b = 0 then (if a = 0 then NaN else if 0 < a then PInf else NInf)
      else Fin (a / b))"

section \<open>Bounding boxes\<close>

type_synonym bbox = "real \<times> real \<times> real \<times> real"

definition amax_axis0 :: "real \<Rightarrow> real" where
  \<comment> \<open>\<^verbatim>\<open>np.amax(a, 0)\<close> for a scalar \<open>a\<close>: the second positional argument of
      \<^verbatim>\<open>np.amax\<close> is the axis, and the maximum of a zero-dimensional array along
      axis 0 is the scalar itself.\<close>
  "amax_axis0 a = a"

definition IoU :: "bbox \<Rightarrow> bbox \<Rightarrow> npfloat" where
  "IoU bbox1 bbox2 =
     (case bbox1 of (x1, y1, w1, h1) \<Rightarrow>
      case bbox2 of (x2, y2, w2, h2) \<Rightarrow>
        let xA = max x1 x2;
            yA = max y1 y2;
            xB = min (x1 + w1) (x2 + w2);
            yB = min (y1 + h1) (y2 + h2);
            xAB = amax_axis0 (xB - xA);
            yAB = amax_axis0 (yB - yA);
            intersection = xAB * yAB;
            union = w1 * h1 + w2 * h2 - intersection
        in np_div intersection union)"

section \<open>Arrays, rounding and slicing\<close>

text \<open>
  A frame is a rectangular list of rows, row-major. A keypoint array of shape \<open>(N, 2)\<close>
  is a list of \<open>N\<close> rows \<open>(y, x)\<close>, and so is an array of flow vectors; the empty array
  is the empty list. Where the code adds an empty array of one shape to an empty array of
  another, the model raises as NumPy does (\<open>guess_add\<close> below).
\<close>

type_synonym image = "real list list"
type_synonym point = "real \<times> real"
type_synonym mat2 = "(real \<times> real) \<times> (real \<times> real)"

definition height :: "image \<Rightarrow> nat" where
  "height img = length img"

definition width :: "image \<Rightarrow> nat" where
  "width img = (case img of [] \<Rightarrow> 0 | r # _ \<Rightarrow> length r)"

definition py_round :: "real \<Rightarrow> int" where
  \<comment> \<open>\<^verbatim>\<open>int(round(v))\<close>: to the nearest integer, a tie to the even neighbour.\<close>
  "py_round v =
     (let f = \<lfloor>v\<rfloor>; d = v - of_int f
      in if d < 1 / 2 then f
         else if 1 / 2 < d then f + 1
         else if even f then f else f + 1)"

definition slice_bounds :: "nat \<Rightarrow> int \<Rightarrow> int \<Rightarrow> nat \<times> nat" where
  \<comment> \<open>The bounds of \<^verbatim>\<open>a[start:stop]\<close> on a sequence of length \<open>n\<close>: a negative bound
      counts from the end, and every bound is clipped to \<open>0..n\<close>.\<close>
  "slice_bounds n start stop =
     (let norm = (\<lambda>i. if i < 0 then max (i + int n) 0 else min i (int n))
      in (nat (norm start), nat (norm stop)))"

definition py_slice :: "'a list \<Rightarrow> int \<Rightarrow> int \<Rightarrow> 'a list" where
  "py_slice xs start stop =
     (case slice_bounds (length xs) start stop of
        (lo, hi) \<Rightarrow> take (hi - lo) (drop lo xs))"

definition window :: "image \<Rightarrow> int \<Rightarrow> int \<Rightarrow> int \<Rightarrow> image" where
  \<comment> \<open>\<^verbatim>\<open>img[y - w: y + w + 1, x - w: x + w + 1]\<close>\<close>
  "window img y x w =
     map (\<lambda>r. py_slice r (x - w) (x + w + 1)) (py_slice img (y - w) (y + w + 1))"

definition window_shape :: "image \<Rightarrow> int \<Rightarrow> int \<Rightarrow> int \<Rightarrow> nat \<times> nat" where
  \<comment> \<open>The shape of that slice; the column count is that of the frame's rows also when
      no row is selected.\<close>
  "window_shape img y x w =
     (case slice_bounds (height img) (y - w) (y + w + 1) of (r0, r1) \<Rightarrow>
      case slice_bounds (width img) (x - w) (x + w + 1) of (c0, c1) \<Rightarrow>
        (r1 - r0, c1 - c0))"

definition broadcast :: "(real \<Rightarrow> real \<Rightarrow> real) \<Rightarrow> real list \<Rightarrow> real list \<Rightarrow> error + real list" where
  \<comment> \<open>An elementwise operation on two columns of shapes \<open>(n, 1)\<close> and \<open>(m, 1)\<close>: the
      lengths agree, or the column of length one is repeated.\<close>
  "broadcast f xs ys =
     (if length xs = length ys then Inr (map2 f xs ys)
      else if length xs = 1 then Inr (map (f (hd xs)) ys)
      else if length ys = 1 then Inr (map (\<lambda>x. f x (hd ys)) xs)
      else Inl ValueError)"

definition bpick :: "'a list \<Rightarrow> nat \<Rightarrow> nat \<Rightarrow> 'a" where
  \<comment> \<open>Entry \<open>i\<close> of an axis broadcast to length \<open>n\<close>: an axis of that length is read
      at \<open>i\<close>, an axis of length one at \<open>0\<close>.\<close>
  "bpick xs n i = (if length xs = n then xs ! i else xs ! 0)"

definition image_sub :: "image \<Rightarrow> image \<Rightarrow> error + image" where
  \<comment> \<open>\<^verbatim>\<open>a - b\<close> on two frames, with NumPy's broadcasting of an axis of length one.\<close>
  "image_sub a b =
     (let ok = (\<lambda>n m. n = m \<or> n = (1::nat) \<or> m = 1);
          h = (if height a = 1 then height b else height a);
          w = (if width a = 1 then width b else width a)
      in if ok (height a) (height b) \<and> ok (width a) (width b)
         then Inr (map (\<lambda>i. map (\<lambda>j. bpick (bpick a h i) w j - bpick (bpick b h i) w j)
                                [0..<w]) [0..<h])
         else Inl ValueError)"

definition np_gradient :: "image \<Rightarrow> error + (image \<times> image)" where
  \<comment> \<open>\<^verbatim>\<open>np.gradient(img)\<close>: the derivative along the rows (axis 0) first, then along the
      columns (axis 1); central differences inside, one-sided differences on the border;
      an axis shorter than two samples is refused.\<close>
  "np_gradient img =
     (let h = height img; w = width img;
          d0 = (\<lambda>i j. if i = 0 then img ! 1 ! j - img ! 0 ! j
                       else if i = h - 1 then img ! (h - 1) ! j - img ! (h - 2) ! j
                       else (img ! (i + 1) ! j - img ! (i - 1) ! j) / 2);
          d1 = (\<lambda>i j. if j = 0 then img ! i ! 1 - img ! i ! 0
                       else if j = w - 1 then img ! i ! (w - 1) - img ! i ! (w - 2)
                       else (img ! i ! (j + 1) - img ! i ! (j - 1)) / 2)
      in if h < 2 \<or> w < 2 then Inl ValueError
         else Inr (map (\<lambda>i. map (d0 i) [0..<w]) [0..<h],
                   map (\<lambda>i. map (d1 i) [0..<w]) [0..<h]))"

definition det2 :: "mat2 \<Rightarrow> real" where
  "det2 M = (case M of ((a, b), (c, d)) \<Rightarrow> a * d - b * c)"

definition linalg_inv :: "mat2 \<Rightarrow> error + mat2" where
  \<comment> \<open>\<^verbatim>\<open>np.linalg.inv\<close> on a 2\<times>2 matrix, over the reals: a singular matrix raises.
      NumPy decides on the pivots of a factorisation in floating point: it raises on a
      pivot that is exactly zero, as for a matrix with a zero row, and can return for
      another singular matrix, whose pivot a rounding has made non-zero.\<close>
  "linalg_inv M =
     (case M of ((a, b), (c, d)) \<Rightarrow>
        if det2 M = 0 then Inl LinAlgError
        else Inr ((d / det2 M, - b / det2 M), (- c / det2 M, a / det2 M)))"

definition matvec :: "mat2 \<Rightarrow> point \<Rightarrow> point" where
  "matvec M u =
     (case M of ((a, b), (c, d)) \<Rightarrow> case u of (p, q) \<Rightarrow> (a * p + b * q, c * p + d * q))"

definition dot :: "real list \<Rightarrow> real list \<Rightarrow> real" where
  "dot xs ys = sum_list (map2 (*) xs ys)"

fun for_each :: "('a \<Rightarrow> error + 'b) \<Rightarrow> 'a list \<Rightarrow> error + 'b list" where
  "for_each f [] = Inr []"
| "for_each f (x # xs) =
     (case f x of
        Inl e \<Rightarrow> Inl e
      | Inr v \<Rightarrow> (case for_each f xs of Inl e \<Rightarrow> Inl e | Inr vs \<Rightarrow> Inr (v # vs)))"

section \<open>Single-level Lucas-Kanade\<close>

definition reshape_column :: "image \<Rightarrow> int \<Rightarrow> error + real list" where
  \<comment> \<open>\<^verbatim>\<open>.reshape(n, 1)\<close>: the samples in row-major order, refused unless there are
      exactly \<open>n\<close> of them.\<close>
  "reshape_column win n =
     (if int (length (concat win)) = n then Inr (concat win) else Inl ValueError)"

definition lucas_kanade_point ::
    "image \<Rightarrow> image \<Rightarrow> image \<Rightarrow> int \<Rightarrow> point \<Rightarrow> error + point" where
  \<comment> \<open>The body of the loop over the keypoints.\<close>
  "lucas_kanade_point Iy Ix It window_size kp =
     (let w = window_size div 2;
          y = py_round (fst kp); x = py_round (snd kp)
      in case reshape_column (window Iy y x w) (window_size ^ 2) of Inl e \<Rightarrow> Inl e
          | Inr Iy_win \<Rightarrow>
        (case reshape_column (window Ix y x w) (window_size ^ 2) of Inl e \<Rightarrow> Inl e
          | Inr Ix_win \<Rightarrow>
        (case reshape_column (window It y x w) (window_size ^ 2) of Inl e \<Rightarrow> Inl e
          | Inr It_win \<Rightarrow>
        (case linalg_inv ((dot Ix_win Ix_win, dot Ix_win Iy_win),
                          (dot Iy_win Ix_win, dot Iy_win Iy_win)) of Inl e \<Rightarrow> Inl e
          | Inr inv_AT_A \<Rightarrow>
         (let neg_AT_b = (- dot Ix_win It_win, - dot Iy_win It_win);
              flow_v = matvec inv_AT_A neg_AT_b
          in Inr flow_v)))))"

definition lucas_kanade :: "image \<Rightarrow> image \<Rightarrow> point list \<Rightarrow> int \<Rightarrow> error + point list" where
  "lucas_kanade img1 img2 keypoints window_size =
     (if window_size mod 2 \<noteq> 1 then Inl AssertionError
      else case np_gradient img1 of Inl e \<Rightarrow> Inl e
          | Inr (Iy, Ix) \<Rightarrow>
          (case image_sub img2 img1 of Inl e \<Rightarrow> Inl e
          | Inr It \<Rightarrow> for_each (lucas_kanade_point Iy Ix It window_size) keypoints))"

section \<open>Iterative Lucas-Kanade\<close>

definition np_hstack :: "point list \<Rightarrow> point list \<Rightarrow> error + (point \<times> point) list" where
  \<comment> \<open>\<^verbatim>\<open>np.hstack((a, b))\<close> on two arrays of two columns: the rows side by side, refused
      unless both have the same number of rows.\<close>
  "np_hstack a b = (if length a = length b then Inr (zip a b) else Inl ValueError)"

fun repeat_update :: "nat \<Rightarrow> ('a \<Rightarrow> error + 'a) \<Rightarrow> 'a \<Rightarrow> error + 'a" where
  \<comment> \<open>\<^verbatim>\<open>for k in range(n): v = step(v)\<close>, left at the first exception.\<close>
  "repeat_update 0 step v = Inr v"
| "repeat_update (Suc n) step v =
     (case step v of Inl e \<Rightarrow> Inl e | Inr v' \<Rightarrow> repeat_update n step v')"

definition flow_update ::
    "image \<Rightarrow> int \<Rightarrow> real list \<Rightarrow> real list \<Rightarrow> real list \<Rightarrow> mat2 \<Rightarrow> point \<Rightarrow> point \<Rightarrow> point
      \<Rightarrow> error + point" where
  \<comment> \<open>One pass of the loop over \<open>k\<close>; \<open>v\<close> holds \<open>(vx, vy)\<close>.\<close>
  "flow_update img2 w A Ax Ay G_inv kp g v =
     (case kp of (y, x) \<Rightarrow> case g of (gy, gx) \<Rightarrow> case v of (vx, vy) \<Rightarrow>
        let y2 = py_round (y + gy + vy);
            x2 = py_round (x + gx + vx);
            B = concat (window img2 y2 x2 w)
        in case broadcast (-) A B of Inl e \<Rightarrow> Inl e
            | Inr Ik \<Rightarrow>
          (case broadcast (*) Ik Ax of Inl e \<Rightarrow> Inl e
            | Inr IkAx \<Rightarrow>
          (case broadcast (*) Ik Ay of Inl e \<Rightarrow> Inl e
            | Inr IkAy \<Rightarrow>
           (let bk = (sum_list IkAx, sum_list IkAy);
                vk = matvec G_inv bk
            in Inr (vx + fst vk, vy + snd vk)))))"

definition iterative_lucas_kanade_point ::
    "image \<Rightarrow> image \<Rightarrow> image \<Rightarrow> image \<Rightarrow> int \<Rightarrow> int \<Rightarrow> point \<times> point \<Rightarrow> error + point" where
  \<comment> \<open>The body of the loop over the rows \<open>(y, x, gy, gx)\<close>.\<close>
  "iterative_lucas_kanade_point img1 img2 Iy Ix window_size num_iters row =
     (case row of (kp, g) \<Rightarrow>
        let w = window_size div 2;
            y1 = py_round (fst kp);
            x1 = py_round (snd kp);
            A = concat (window img1 y1 x1 w);
            Ax = concat (window Ix y1 x1 w);
            Ay = concat (window Iy y1 x1 w);
            IxIx = dot Ax Ax;
            IxIy = dot Ax Ay;
            IyIy = dot Ay Ay
        in case linalg_inv ((IxIx, IxIy), (IxIy, IyIy)) of Inl e \<Rightarrow> Inl e
            | Inr G_inv \<Rightarrow>
          (case repeat_update (nat num_iters) (flow_update img2 w A Ax Ay G_inv kp g) (0, 0) of
              Inl e \<Rightarrow> Inl e
            | Inr (vx, vy) \<Rightarrow> Inr (vy, vx)))"

definition keypoint_G :: "image \<Rightarrow> image \<Rightarrow> int \<Rightarrow> point \<Rightarrow> mat2" where
  \<comment> \<open>The matrix \<open>G\<close> that the loop body builds for a keypoint.\<close>
  "keypoint_G Iy Ix window_size kp =
     (let w = window_size div 2;
          y1 = py_round (fst kp);
          x1 = py_round (snd kp);
          Ax = concat (window Ix y1 x1 w);
          Ay = concat (window Iy y1 x1 w)
      in ((dot Ax Ax, dot Ax Ay), (dot Ax Ay, dot Ay Ay)))"

definition iterative_lucas_kanade ::
    "image \<Rightarrow> image \<Rightarrow> point list \<Rightarrow> int \<Rightarrow> int \<Rightarrow> point list option \<Rightarrow> error + point list" where
  "iterative_lucas_kanade img1 img2 keypoints window_size num_iters g =
     (if window_size mod 2 \<noteq> 1 then Inl AssertionError
      else
        let g = (case g of None \<Rightarrow> map (\<lambda>_. (0, 0)) keypoints | Some g' \<Rightarrow> g')
        in case np_gradient img1 of Inl e \<Rightarrow> Inl e
            | Inr (Iy, Ix) \<Rightarrow>
          (case np_hstack keypoints g of Inl e \<Rightarrow> Inl e
            | Inr rows \<Rightarrow>
              for_each (iterative_lucas_kanade_point img1 img2 Iy Ix window_size num_iters) rows))"

section \<open>Pyramidal Lucas-Kanade\<close>

text \<open>
  \<^verbatim>\<open>pyramid_gaussian\<close> belongs to scikit-image, so the builder of the pyramid is a
  parameter \<open>pyramid_gaussian img max_layer downscale\<close> giving the tuple of the levels,
  level 0 first, or the error it raises.

  The keypoint array given to \<open>pyramid_lucas_kanade\<close> has the documented shape
  \<open>(N, 2)\<close>, and so has the guess \<open>g\<close>. The refiner returns \<^verbatim>\<open>np.array(flow_vectors)\<close>,
  of shape \<open>(N, 2)\<close> for \<open>N > 0\<close> and of shape \<open>(0,)\<close> for no keypoint, and the shapes
  \<open>(0, 2)\<close> and \<open>(0,)\<close> do not broadcast: \<^verbatim>\<open>g + d\<close> raises for an empty keypoint array.
\<close>

type_synonym pyramid_builder = "image \<Rightarrow> int \<Rightarrow> real \<Rightarrow> error + image list"

definition index :: "'a list \<Rightarrow> nat \<Rightarrow> error + 'a" where
  \<comment> \<open>\<^verbatim>\<open>t[L]\<close> for a level \<open>L \<ge> 0\<close> of a tuple.\<close>
  "index xs L = (if L < length xs then Inr (xs ! L) else Inl IndexError)"

definition vadd :: "point \<Rightarrow> point \<Rightarrow> point" where
  "vadd a b = (fst a + fst b, snd a + snd b)"

definition vscale :: "real \<Rightarrow> point \<Rightarrow> point" where
  "vscale s a = (s * fst a, s * snd a)"

definition guess_add :: "point list \<Rightarrow> point list \<Rightarrow> error + point list" where
  \<comment> \<open>\<^verbatim>\<open>g + d\<close> for the guess \<open>g\<close> and the array \<open>d\<close> that the refiner returned for as many
      keypoints.\<close>
  "guess_add g d = (if g = [] then Inl ValueError else Inr (map2 vadd g d))"

definition refine_nonfinite :: "image \<Rightarrow> int \<Rightarrow> point \<Rightarrow> error + point list" where
  \<comment> \<open>The refiner on keypoints that were divided by zero: its assertion and the gradient
      come first, then \<^verbatim>\<open>int(round(y))\<close> raises on the first coordinate, which is a NaN
      when the keypoint's \<open>y\<close> is zero and an infinity otherwise.\<close>
  "refine_nonfinite img1 window_size kp =
     (if window_size mod 2 \<noteq> 1 then Inl AssertionError
      else case np_gradient img1 of Inl e \<Rightarrow> Inl e
          | Inr _ \<Rightarrow> Inl (if fst kp = 0 then ValueError else OverflowError))"

fun level_loop ::
    "image list \<Rightarrow> image list \<Rightarrow> point list \<Rightarrow> int \<Rightarrow> int \<Rightarrow> real \<Rightarrow> nat list
      \<Rightarrow> point list \<times> point list option \<Rightarrow> error + (point list \<times> point list option)" where
  \<comment> \<open>\<^verbatim>\<open>for L in ...\<close> on the state \<open>(g, d)\<close>; \<open>d\<close> is unbound before the first pass.\<close>
  "level_loop pyramid1 pyramid2 keypoints window_size num_iters scale [] st = Inr st"
| "level_loop pyramid1 pyramid2 keypoints window_size num_iters scale (L # Ls) st =
     (case index pyramid1 L of Inl e \<Rightarrow> Inl e
        | Inr img1_L \<Rightarrow>
      (case index pyramid2 L of Inl e \<Rightarrow> Inl e
        | Inr img2_L \<Rightarrow>
       (let g = fst st;
            keypoints_L = map (\<lambda>kp. (fst kp / scale ^ L, snd kp / scale ^ L)) keypoints
        in case (if scale ^ L = 0 \<and> keypoints \<noteq> []
                 then refine_nonfinite img1_L window_size (hd keypoints)
                 else iterative_lucas_kanade img1_L img2_L keypoints_L window_size num_iters
                        (Some g)) of
             Inl e \<Rightarrow> Inl e
           | Inr d \<Rightarrow>
               if L \<noteq> 0
               then (case guess_add g d of Inl e \<Rightarrow> Inl e
                     | Inr s \<Rightarrow>
                         level_loop pyramid1 pyramid2 keypoints window_size num_iters scale Ls
                           (map (vscale scale) s, Some d))
               else level_loop pyramid1 pyramid2 keypoints window_size num_iters scale Ls
                      (g, Some d))))"

definition pyramid_lucas_kanade ::
    "pyramid_builder \<Rightarrow> image \<Rightarrow> image \<Rightarrow> point list \<Rightarrow> int \<Rightarrow> int \<Rightarrow> int \<Rightarrow> real
      \<Rightarrow> error + point list" where
  "pyramid_lucas_kanade pyramid_gaussian img1 img2 keypoints window_size num_iters level scale =
     (case pyramid_gaussian img1 level scale of Inl e \<Rightarrow> Inl e
        | Inr pyramid1 \<Rightarrow>
      (case pyramid_gaussian img2 level scale of Inl e \<Rightarrow> Inl e
        | Inr pyramid2 \<Rightarrow>
       (let g = map (\<lambda>_. (0, 0)) keypoints
        in case level_loop pyramid1 pyramid2 keypoints window_size num_iters scale
                  (rev [0..<nat (level + 1)]) (g, None) of
             Inl e \<Rightarrow> Inl e
           | Inr (g, None) \<Rightarrow> Inl UnboundLocalError
           | Inr (g, Some d) \<Rightarrow> guess_add g d)))"

section \<open>Patch error and the tracker\<close>

fun np_add :: "npfloat \<Rightarrow> npfloat \<Rightarrow> npfloat" where
  "np_add (Fin a) (Fin b) = Fin (a + b)"
| "np_add NaN _ = NaN"
| "np_add _ NaN = NaN"
| "np_add PInf NInf = NaN"
| "np_add NInf PInf = NaN"
| "np_add PInf _ = PInf"
| "np_add _ PInf = PInf"
| "np_add NInf _ = NInf"
| "np_add _ NInf = NInf"

fun np_neg :: "npfloat \<Rightarrow> npfloat" where
  "np_neg (Fin a) = Fin (- a)"
| "np_neg PInf = NInf"
| "np_neg NInf = PInf"
| "np_neg NaN = NaN"

definition np_sub :: "npfloat \<Rightarrow> npfloat \<Rightarrow> npfloat" where
  "np_sub a b = np_add a (np_neg b)"

fun np_square :: "npfloat \<Rightarrow> npfloat" where
  "np_square (Fin a) = Fin (a * a)"
| "np_square PInf = PInf"
| "np_square NInf = PInf"
| "np_square NaN = NaN"

definition np_mean :: "npfloat list \<Rightarrow> npfloat" where
  \<comment> \<open>\<^verbatim>\<open>np.mean\<close> of possibly non-finite values; the mean of no value is a NaN.\<close>
  "np_mean vs =
     (if vs = [] then NaN
      else case foldl np_add (Fin 0) vs of
             Fin t \<Rightarrow> Fin (t / real (length vs))
           | v \<Rightarrow> v)"

fun np_gt :: "npfloat \<Rightarrow> real \<Rightarrow> bool" where
  \<comment> \<open>\<^verbatim>\<open>a > t\<close>; every comparison with a NaN is false.\<close>
  "np_gt (Fin a) t = (t < a)"
| "np_gt PInf t = True"
| "np_gt NInf t = False"
| "np_gt NaN t = False"

definition mean :: "real list \<Rightarrow> real" where
  \<comment> \<open>\<^verbatim>\<open>np.mean\<close>, over the reals.\<close>
  "mean xs = sum_list xs / real (length xs)"

definition std :: "real list \<Rightarrow> real" where
  \<comment> \<open>\<^verbatim>\<open>np.std\<close>, over the reals. In floating point the mean of equal samples can
      differ from them by a rounding, and \<^verbatim>\<open>np.std\<close> is then small and not zero; it is
      exactly zero where the mean is exact, as for equal samples of a small integer
      value, whose sums are exact.\<close>
  "std xs = sqrt (mean (map (\<lambda>v. (v - mean xs) ^ 2) xs))"

definition normalize :: "real list \<Rightarrow> npfloat list" where
  \<comment> \<open>\<^verbatim>\<open>(patch - np.mean(patch)) / np.std(patch)\<close>, sample by sample.\<close>
  "normalize xs = map (\<lambda>v. np_div (v - mean xs) (std xs)) xs"

type_synonym patch = "(nat \<times> nat) \<times> real list"

definition extract_patch :: "image \<Rightarrow> int \<Rightarrow> int \<Rightarrow> int \<Rightarrow> patch" where
  \<comment> \<open>A slice of a frame with its shape and its samples in row-major order.\<close>
  "extract_patch img y x w = (window_shape img y x w, concat (window img y x w))"

definition compute_error :: "patch \<Rightarrow> patch \<Rightarrow> error + npfloat" where
  "compute_error patch1 patch2 =
     (if fst patch1 \<noteq> fst patch2 then Inl AssertionError
      else
        let p1 = normalize (snd patch1);
            p2 = normalize (snd patch2)
        in Inr (np_mean (map2 (\<lambda>a b. np_square (np_sub a b)) p1 p2)))"

definition array_add :: "point list \<Rightarrow> point list \<Rightarrow> error + point list" where
  \<comment> \<open>\<^verbatim>\<open>a + b\<close> on two arrays of two columns: row by row, an array of one row being
      repeated.\<close>
  "array_add a b =
     (if length a = length b then Inr (map2 vadd a b)
      else if length b = 1 then Inr (map (\<lambda>p. vadd p (hd b)) a)
      else if length a = 1 then Inr (map (vadd (hd a)) b)
      else Inl ValueError)"

type_synonym flow_fn = "image \<Rightarrow> image \<Rightarrow> point list \<Rightarrow> error + point list"

definition out_of_frame :: "image \<Rightarrow> int \<Rightarrow> int \<Rightarrow> int \<Rightarrow> bool" where
  \<comment> \<open>The condition under the comment \<^verbatim>\<open># Point falls outside the image\<close>.\<close>
  "out_of_frame J exclude_border yj xj \<longleftrightarrow>
     yj > int (height J) - exclude_border - 1
     \<or> yj < exclude_border
     \<or> xj > int (width J) - exclude_border - 1
     \<or> xj < exclude_border"

definition keep_point ::
    "image \<Rightarrow> image \<Rightarrow> real \<Rightarrow> int \<Rightarrow> point \<times> point \<Rightarrow> error + point option" where
  \<comment> \<open>The body of the loop over the rows \<open>(yi, xi, yj, xj)\<close>: \<open>None\<close> where the code
      continues without appending, \<open>Some [yj, xj]\<close> where it appends.\<close>
  "keep_point I J error_thresh exclude_border row =
     (case row of (kp_i, kp_j) \<Rightarrow>
        let w = 3 div 2;
            yi = py_round (fst kp_i);
            xi = py_round (snd kp_i);
            yj = py_round (fst kp_j);
            xj = py_round (snd kp_j)
        in if out_of_frame J exclude_border yj xj then Inr None
           else
             case compute_error (extract_patch I yi xi w) (extract_patch J yj xj w) of
               Inl e \<Rightarrow> Inl e
             | Inr err \<Rightarrow>
                 if np_gt err error_thresh then Inr None
                 else Inr (Some (of_int yj, of_int xj)))"

definition track_step ::
    "flow_fn \<Rightarrow> real \<Rightarrow> int \<Rightarrow> image \<Rightarrow> image \<Rightarrow> point list \<Rightarrow> error + point list" where
  \<comment> \<open>One pass of the loop over the frames: from \<open>kp_curr\<close> to the next \<open>kp_curr\<close>.\<close>
  "track_step optflow_fn error_thresh exclude_border I J kp_curr =
     (case optflow_fn I J kp_curr of Inl e \<Rightarrow> Inl e
        | Inr flow_vectors \<Rightarrow>
      (case array_add kp_curr flow_vectors of Inl e \<Rightarrow> Inl e
        | Inr kp_next \<Rightarrow>
      (case np_hstack kp_curr kp_next of Inl e \<Rightarrow> Inl e
        | Inr rows \<Rightarrow>
      (case for_each (keep_point I J error_thresh exclude_border) rows of Inl e \<Rightarrow> Inl e
        | Inr kept \<Rightarrow> Inr (List.map_filter id kept)))))"

fun track_loop ::
    "flow_fn \<Rightarrow> real \<Rightarrow> int \<Rightarrow> image list \<Rightarrow> point list \<Rightarrow> error + point list list" where
  \<comment> \<open>\<^verbatim>\<open>for i in range(len(frames) - 1)\<close>: the arrays appended to \<open>trajs\<close>.\<close>
  "track_loop optflow_fn error_thresh exclude_border (I # J # frames) kp_curr =
     (case track_step optflow_fn error_thresh exclude_border I J kp_curr of Inl e \<Rightarrow> Inl e
        | Inr kp_new \<Rightarrow>
      (case track_loop optflow_fn error_thresh exclude_border (J # frames) kp_new of
          Inl e \<Rightarrow> Inl e
        | Inr trajs \<Rightarrow> Inr (kp_new # trajs)))"
| "track_loop optflow_fn error_thresh exclude_border frames kp_curr = Inr []"

definition track_features ::
    "image list \<Rightarrow> point list \<Rightarrow> real \<Rightarrow> flow_fn \<Rightarrow> int \<Rightarrow> error + point list list" where
  \<comment> \<open>\<open>optflow_fn\<close> stands for the flow function with its keyword arguments applied.\<close>
  "track_features frames keypoints error_thresh optflow_fn exclude_border =
     (case track_loop optflow_fn error_thresh exclude_border frames keypoints of
        Inl e \<Rightarrow> Inl e
      | Inr trajs \<Rightarrow> Inr (keypoints # trajs))"

definition round_point :: "point \<Rightarrow> point" where
  \<comment> \<open>The row \<^verbatim>\<open>[int(round(y)), int(round(x))]\<close> of a position \<open>(y, x)\<close>.\<close>
  "round_point p = (of_int (py_round (fst p)), of_int (py_round (snd p)))"

section \<open>Example inputs\<close>

definition frame_a :: image where
  \<comment> \<open>A textured frame of six rows and six columns: \<open>frame_a y x = y * y + x\<close>.\<close>
  "frame_a =
     [[0, 1, 2, 3, 4, 5],
      [1, 2, 3, 4, 5, 6],
      [4, 5, 6, 7, 8, 9],
      [9, 10, 11, 12, 13, 14],
      [16, 17, 18, 19, 20, 21],
      [25, 26, 27, 28, 29, 30]]"

definition keypoints_a :: "point list" where
  "keypoints_a = [(9 / 4, 3), (1, 2), (3, 2)]"

definition trajectory_a :: "point list list" where
  "trajectory_a = [[(9 / 4, 3), (1, 2), (3, 2)], [(2, 3), (3, 2)]]"

definition refine_once :: flow_fn where
  \<comment> \<open>\<^verbatim>\<open>optflow_fn=iterative_lucas_kanade\<close> with \<^verbatim>\<open>window_size=3, num_iters=1\<close>.\<close>
  "refine_once I J keypoints = iterative_lucas_kanade I J keypoints 3 1 None"

definition frame_b :: image where
  \<comment> \<open>\<open>frame_b y x = x * y\<close>\<close>
  "frame_b =
     [[0, 0, 0, 0, 0, 0],
      [0, 1, 2, 3, 4, 5],
      [0, 2, 4, 6, 8, 10],
      [0, 3, 6, 9, 12, 15],
      [0, 4, 8, 12, 16, 20],
      [0, 5, 10, 15, 20, 25]]"

definition frame_c :: image where
  \<comment> \<open>\<open>frame_b\<close> moved by two pixels along \<open>x\<close>: \<open>frame_c y x = (x - 2) * y\<close>.\<close>
  "frame_c =
     [[0, 0, 0, 0, 0, 0],
      [- 2, - 1, 0, 1, 2, 3],
      [- 4, - 2, 0, 2, 4, 6],
      [- 6, - 3, 0, 3, 6, 9],
      [- 8, - 4, 0, 4, 8, 12],
      [- 10, - 5, 0, 5, 10, 15]]"

definition frame_f :: image where
  \<comment> \<open>Six rows of ten samples: \<open>frame_f y x = x * y\<close>.\<close>
  "frame_f =
     [[0, 0, 0, 0, 0, 0, 0, 0, 0, 0],
      [0, 1, 2, 3, 4, 5, 6, 7, 8, 9],
      [0, 2, 4, 6, 8, 10, 12, 14, 16, 18],
      [0, 3, 6, 9, 12, 15, 18, 21, 24, 27],
      [0, 4, 8, 12, 16, 20, 24, 28, 32, 36],
      [0, 5, 10, 15, 20, 25, 30, 35, 40, 45]]"

definition frame_g :: image where
  \<comment> \<open>\<open>frame_f\<close> moved by four pixels along \<open>x\<close>, \<open>frame_g y x = (x - 4) * y\<close>, but for
      column 3, which is blank.\<close>
  "frame_g =
     [[0, 0, 0, 0, 0, 0, 0, 0, 0, 0],
      [- 4, - 3, - 2, 0, 0, 1, 2, 3, 4, 5],
      [- 8, - 6, - 4, 0, 0, 2, 4, 6, 8, 10],
      [- 12, - 9, - 6, 0, 0, 3, 6, 9, 12, 15],
      [- 16, - 12, - 8, 0, 0, 4, 8, 12, 16, 20],
      [- 20, - 15, - 10, 0, 0, 5, 10, 15, 20, 25]]"

definition halve :: "image \<Rightarrow> image" where
  \<comment> \<open>Every second sample of every second row.\<close>
  "halve img =
     map (\<lambda>i. map (\<lambda>j. img ! (2 * i) ! (2 * j)) [0..<width img div 2]) [0..<height img div 2]"

definition pyramid_a :: pyramid_builder where
  \<comment> \<open>A builder of pyramids of at most two levels, for the examples.\<close>
  "pyramid_a img max_layer downscale = Inr (if max_layer = 0 then [img] else [img, halve img])"

definition frame_d :: image where
  \<comment> \<open>A textured frame of seven rows and columns whose central 3\<times>3 block is flat.\<close>
  "frame_d =
     [[1, 2, 3, 4, 5, 6, 7],
      [2, 3, 4, 5, 6, 7, 8],
      [5, 6, 0, 0, 0, 10, 11],
      [10, 11, 0, 0, 0, 15, 16],
      [17, 18, 0, 0, 0, 22, 23],
      [26, 27, 28, 29, 30, 31, 32],
      [37, 38, 39, 40, 41, 42, 43]]"

definition refine_wide :: flow_fn where
  \<comment> \<open>\<^verbatim>\<open>optflow_fn=iterative_lucas_kanade\<close> with \<^verbatim>\<open>window_size=5, num_iters=1\<close>.\<close>
  "refine_wide I J keypoints = iterative_lucas_kanade I J keypoints 5 1 None"

definition frame_e :: image where
  \<comment> \<open>Three rows of seven samples: \<open>x * y\<close> in the columns 0 to 2, flat from column 3 on.\<close>
  "frame_e =
     [[0, 0, 0, 0, 0, 0, 0],
      [0, 1, 2, 0, 0, 0, 0],
      [0, 2, 4, 0, 0, 0, 0]]"

definition frame_e_Iy :: image where
  "frame_e_Iy =
     [[0, 1, 2, 0, 0, 0, 0],
      [0, 1, 2, 0, 0, 0, 0],
      [0, 1, 2, 0, 0, 0, 0]]"

definition frame_e_Ix :: image where
  "frame_e_Ix =
     [[0, 0, 0, 0, 0, 0, 0],
      [1, 1, - (1 / 2), - 1, 0, 0, 0],
      [2, 2, - 1, - 2, 0, 0, 0]]"

definition frame_b_Iy :: image where
  "frame_b_Iy =
     [[0, 1, 2, 3, 4, 5],
      [0, 1, 2, 3, 4, 5],
      [0, 1, 2, 3, 4, 5],
      [0, 1, 2, 3, 4, 5],
      [0, 1, 2, 3, 4, 5],
      [0, 1, 2, 3, 4, 5]]"

definition frame_b_Ix :: image where
  "frame_b_Ix =
     [[0, 0, 0, 0, 0, 0],
      [1, 1, 1, 1, 1, 1],
      [2, 2, 2, 2, 2, 2],
      [3, 3, 3, 3, 3, 3],
      [4, 4, 4, 4, 4, 4],
      [5, 5, 5, 5, 5, 5]]"

section \<open>The iterative refiner as the specification words it\<close>

definition normal_matrix :: "real list \<Rightarrow> real list \<Rightarrow> mat2" where
  \<comment> \<open>\<open>G = [[\<Sigma>Ax\<^sup>2, \<Sigma>AxAy], [\<Sigma>AxAy, \<Sigma>Ay\<^sup>2]]\<close>\<close>
  "normal_matrix Ax Ay =
     ((\<Sum>a\<leftarrow>Ax. a\<^sup>2, \<Sum>(a, b)\<leftarrow>zip Ax Ay. a * b),
      (\<Sum>(a, b)\<leftarrow>zip Ax Ay. a * b, \<Sum>b\<leftarrow>Ay. b\<^sup>2))"

definition inverse2 :: "mat2 \<Rightarrow> mat2" where
  \<comment> \<open>The inverse of a 2\<times>2 matrix of non-zero determinant.\<close>
  "inverse2 M =
     (case M of ((a, b), (c, d)) \<Rightarrow>
        ((d / det2 M, - b / det2 M), (- c / det2 M, a / det2 M)))"

definition mat_mul :: "mat2 \<Rightarrow> mat2 \<Rightarrow> mat2" where
  "mat_mul M N =
     (case M of ((a, b), (c, d)) \<Rightarrow> case N of ((p, q), (r, s)) \<Rightarrow>
        ((a * p + b * r, a * q + b * s), (c * p + d * r, c * q + d * s)))"

definition residual_vector :: "real list \<Rightarrow> real list \<Rightarrow> real list \<Rightarrow> real list \<Rightarrow> point" where
  \<comment> \<open>\<open>b = (\<Sigma>Ik\<cdot>Ax, \<Sigma>Ik\<cdot>Ay)\<close> for the residual \<open>Ik = A - B\<close>.\<close>
  "residual_vector A B Ax Ay =
     (let Ik = map2 (-) A B
      in (\<Sum>(i, a)\<leftarrow>zip Ik Ax. i * a, \<Sum>(i, a)\<leftarrow>zip Ik Ay. i * a))"

definition reference_window :: "image \<Rightarrow> int \<Rightarrow> point \<Rightarrow> real list" where
  \<comment> \<open>The window of half-width \<open>w\<close> around the rounded keypoint.\<close>
  "reference_window img w kp = concat (window img (py_round (fst kp)) (py_round (snd kp)) w)"

definition target_window :: "image \<Rightarrow> int \<Rightarrow> point \<Rightarrow> point \<Rightarrow> point \<Rightarrow> real list" where
  \<comment> \<open>The window of the target frame at the rounded position keypoint + guess + \<open>v\<close>,
      for \<open>v = (vx, vy)\<close>.\<close>
  "target_window img2 w kp g v =
     concat (window img2 (py_round (fst kp + fst g + snd v)) (py_round (snd kp + snd g + fst v)) w)"

fun refined_flow ::
    "image \<Rightarrow> int \<Rightarrow> real list \<Rightarrow> real list \<Rightarrow> real list \<Rightarrow> mat2 \<Rightarrow> point \<Rightarrow> point \<Rightarrow> nat
      \<Rightarrow> point" where
  \<comment> \<open>The estimate \<open>v\<close> after \<open>n\<close> repetitions: \<open>v = (0, 0)\<close> at first, then
      \<open>v \<leftarrow> v + G\<^sup>-\<^sup>1\<cdot>b\<close>.\<close>
  "refined_flow img2 w A Ax Ay G_inv kp g 0 = (0, 0)"
| "refined_flow img2 w A Ax Ay G_inv kp g (Suc n) =
     (let v = refined_flow img2 w A Ax Ay G_inv kp g n;
          B = target_window img2 w kp g v
      in vadd v (matvec G_inv (residual_vector A B Ax Ay)))"

definition scheme_G :: "image \<Rightarrow> image \<Rightarrow> int \<Rightarrow> point \<Rightarrow> mat2" where
  \<comment> \<open>\<open>G\<close> from the derivative windows of the reference frame.\<close>
  "scheme_G Iy Ix window_size kp =
     normal_matrix (reference_window Ix (window_size div 2) kp)
       (reference_window Iy (window_size div 2) kp)"

definition scheme_flow ::
    "image \<Rightarrow> image \<Rightarrow> image \<Rightarrow> image \<Rightarrow> int \<Rightarrow> point \<Rightarrow> point \<Rightarrow> nat \<Rightarrow> point" where
  \<comment> \<open>The estimate after \<open>n\<close> repetitions, with \<open>A\<close>, \<open>Ax\<close>, \<open>Ay\<close> and the inverse of \<open>G\<close>
      fixed beforehand.\<close>
  "scheme_flow img1 img2 Iy Ix window_size kp g n =
     refined_flow img2 (window_size div 2)
       (reference_window img1 (window_size div 2) kp)
       (reference_window Ix (window_size div 2) kp)
       (reference_window Iy (window_size div 2) kp)
       (inverse2 (scheme_G Iy Ix window_size kp)) kp g n"

section \<open>The coarse-to-fine scheme as the specification words it\<close>

definition rescale :: "point list \<Rightarrow> real \<Rightarrow> nat \<Rightarrow> point list" where
  \<comment> \<open>The keypoints at the resolution of level \<open>l\<close>: coordinates divided by \<open>s ^ l\<close>.\<close>
  "rescale keypoints s l = map (\<lambda>(y, x). (y / s ^ l, x / s ^ l)) keypoints"

fun coarse_to_fine ::
    "(nat \<Rightarrow> point list \<Rightarrow> error + point list) \<Rightarrow> real \<Rightarrow> nat \<Rightarrow> point list
      \<Rightarrow> error + point list" where
  \<comment> \<open>From level \<open>l\<close> down to 0 with guess \<open>g\<close>: the refiner at the level gives \<open>d\<close>; above
      level 0 the guess for the next finer level is \<open>s * (g + d)\<close>; at level 0 the flow is
      \<open>g + d\<close>, keypoint by keypoint.\<close>
  "coarse_to_fine refine s 0 g =
     (case refine 0 g of Inl e \<Rightarrow> Inl e
      | Inr d \<Rightarrow> Inr (map2 (\<lambda>(gy, gx) (dy, dx). (gy + dy, gx + dx)) g d))"
| "coarse_to_fine refine s (Suc l) g =
     (case refine (Suc l) g of Inl e \<Rightarrow> Inl e
      | Inr d \<Rightarrow>
          coarse_to_fine refine s l
            (map2 (\<lambda>(gy, gx) (dy, dx). (s * (gy + dy), s * (gx + dx))) g d))"

section \<open>Results\<close>

text \<open>
  C1. \<open>lucas_kanade\<close> appends the solution of the normal equations as it stands. The
  columns of \<open>A\<close> are \<open>[Ix | Iy]\<close>, so the solution is \<open>(vx, vy)\<close>, and that is the row
  the result carries, where keypoints are \<open>(y, x)\<close> and the refiner's rows are
  \<open>(vy, vx)\<close>. The second frame below is the first one moved by one pixel along \<open>x\<close>
  (\<open>img1 y x = x * y + 2\<close>, \<open>img2 y x = (x - 1) * y + 2\<close>): \<open>lucas_kanade\<close> answers
  \<open>[1, 0]\<close>, the one-pass refiner \<open>[0, 1]\<close>.
\<close>

theorem lucas_kanade_reports_vx_vy:
  "lucas_kanade [[2, 2, 2], [2, 3, 4], [2, 4, 6]] [[2, 2, 2], [1, 2, 3], [0, 2, 4]]
       [(1, 1)] 3 = Inr [(1, 0)]
   \<and> iterative_lucas_kanade [[2, 2, 2], [2, 3, 4], [2, 4, 6]] [[2, 2, 2], [1, 2, 3], [0, 2, 4]]
       [(1, 1)] 3 1 None = Inr [(0, 1)]"
  by code_simp

lemma IoU_identical: "IoU (1, 1, 4, 4) (1, 1, 4, 4) = Fin 1"
  by (simp add: IoU_def amax_axis0_def)

lemma IoU_partial: "IoU (0, 0, 4, 4) (2, 2, 4, 4) = Fin (4 / 28)"
  by (simp add: IoU_def amax_axis0_def)

text \<open>
  C2. The intersection width and height are not clamped: for the disjoint boxes
  \<open>(0,0,2,2)\<close> and \<open>(10,10,2,2)\<close> both differences are \<open>-8\<close>, their product \<open>64\<close> is
  taken as the intersection, the union becomes \<open>4 + 4 - 64 = -56\<close>, and the score is
  \<open>-8/7\<close> where the clamped computation gives \<open>0\<close>.
\<close>

theorem IoU_disjoint_not_clamped:
  "IoU (0, 0, 2, 2) (10, 10, 2, 2) = Fin (- 8 / 7)"
  by (simp add: IoU_def amax_axis0_def)

subsection \<open>Loops over keypoints and frames\<close>

lemma for_each_all2:
  "for_each f xs = Inr ys \<Longrightarrow> list_all2 (\<lambda>x y. f x = Inr y) xs ys"
  by (induction xs arbitrary: ys) (auto split: sum.splits)

lemma for_each_length: "for_each f xs = Inr ys \<Longrightarrow> length ys = length xs"
  by (drule for_each_all2) (simp add: list_all2_lengthD)

lemma keep_point_cases:
  "keep_point I J t eb row = Inr r \<Longrightarrow> r = None \<or> r = Some (round_point (snd row))"
  by (auto simp: keep_point_def round_point_def Let_def split: prod.splits if_splits sum.splits)

lemma kept_subseq:
  "list_all2 (\<lambda>row r. r = None \<or> r = Some (round_point (snd row))) rows kept \<Longrightarrow>
   \<exists>ns. subseq ns rows \<and> List.map_filter id kept = map (round_point \<circ> snd) ns"
proof (induction rule: list_all2_induct)
  case Nil
  show ?case by (simp add: List.map_filter_simps)
next
  case (Cons row rows r kept)
  then obtain ns where ns: "subseq ns rows" "List.map_filter id kept = map (round_point \<circ> snd) ns"
    by blast
  show ?case
  proof (cases r)
    case None
    with ns have "subseq ns (row # rows)"
        and "List.map_filter id (r # kept) = map (round_point \<circ> snd) ns"
      by (simp_all add: List.map_filter_simps list_emb_Cons)
    then show ?thesis by blast
  next
    case (Some p)
    with Cons.hyps have "p = round_point (snd row)" by simp
    with Some ns have "subseq (row # ns) (row # rows)"
        and "List.map_filter id (r # kept) = map (round_point \<circ> snd) (row # ns)"
      by (simp_all add: List.map_filter_simps)
    then show ?thesis by blast
  qed
qed

lemma track_step_survivors:
  assumes "track_step optflow_fn t eb I J kp = Inr kp'"
  shows "\<exists>flows nxt ns. optflow_fn I J kp = Inr flows \<and> array_add kp flows = Inr nxt
           \<and> length nxt = length kp \<and> subseq ns (zip kp nxt)
           \<and> kp' = map (round_point \<circ> snd) ns"
proof -
  from assms obtain flows nxt rows kept where
      f: "optflow_fn I J kp = Inr flows" and a: "array_add kp flows = Inr nxt"
      and h: "np_hstack kp nxt = Inr rows"
      and k: "for_each (keep_point I J t eb) rows = Inr kept"
      and r: "kp' = List.map_filter id kept"
    by (auto simp: track_step_def split: sum.splits)
  from h have len: "length nxt = length kp" and rows: "rows = zip kp nxt"
    by (auto simp: np_hstack_def split: if_splits)
  from for_each_all2 [OF k]
  have "list_all2 (\<lambda>row r. r = None \<or> r = Some (round_point (snd row))) rows kept"
    by (rule list_all2_mono) (auto dest: keep_point_cases)
  from kept_subseq [OF this] r rows f a len show ?thesis by blast
qed

lemma track_loop_consecutive:
  "track_loop optflow_fn t eb frames kp = Inr trajs \<Longrightarrow> i < length trajs \<Longrightarrow>
   Suc i < length frames \<and>
   track_step optflow_fn t eb (frames ! i) (frames ! Suc i) ((kp # trajs) ! i) = Inr (trajs ! i)"
proof (induction optflow_fn t eb frames kp arbitrary: trajs i rule: track_loop.induct)
  case (1 optflow_fn t eb I J frames kp)
  then show ?case
    by (cases i) (auto split: sum.splits)
qed auto

lemma track_features_consecutive:
  assumes "track_features frames keypoints t optflow_fn eb = Inr trajectory"
    and "Suc i < length trajectory"
  shows "track_step optflow_fn t eb (frames ! i) (frames ! Suc i) (trajectory ! i)
           = Inr (trajectory ! Suc i)"
  using assms track_loop_consecutive [of optflow_fn t eb frames keypoints _ i]
  by (auto simp: track_features_def split: sum.splits)

lemma track_features_first:
  "track_features frames keypoints t optflow_fn eb = Inr trajectory \<Longrightarrow> trajectory ! 0 = keypoints"
  by (auto simp: track_features_def split: sum.splits)

subsection \<open>Patch error of identical patches\<close>

lemma foldl_np_add_zero: "foldl np_add (Fin 0) (map (\<lambda>_. Fin 0) xs) = Fin 0"
  by (induction xs) auto

lemma map2_same: "map2 f xs xs = map (\<lambda>x. f x x) xs"
  by (induction xs) auto

lemma compute_error_same:
  assumes "std xs \<noteq> 0"
  shows "compute_error (sh, xs) (sh, xs) = Inr (Fin 0)"
proof -
  from assms have ne: "xs \<noteq> []" by (auto simp: std_def mean_def)
  have n: "normalize xs = map (\<lambda>v. Fin ((v - mean xs) / std xs)) xs"
    using assms by (simp add: normalize_def)
  have "map2 (\<lambda>a b. np_square (np_sub a b)) (normalize xs) (normalize xs)
          = map (\<lambda>_. Fin 0) xs"
    by (simp add: n map2_same np_sub_def comp_def)
  moreover from ne have "normalize xs \<noteq> []" by (simp add: normalize_def)
  ultimately show ?thesis
    by (simp add: compute_error_def np_mean_def foldl_np_add_zero Let_def)
qed

subsection \<open>A run of the tracker\<close>

lemma refine_once_frame_a:
  "refine_once frame_a frame_a [(9 / 4, 3), (1, 2), (3, 2)] = Inr [(0, 0), (0, 0), (0, 0)]"
  by code_simp

lemma py_round_examples:
  "py_round (9 / 4) = 2" "py_round 3 = 3" "py_round 2 = 2" "py_round 1 = 1"
  by code_simp+

lemma frame_a_shape: "height frame_a = 6" "width frame_a = 6"
  by code_simp+

lemma frame_a_patch_2_3: "extract_patch frame_a 2 3 1 = ((3, 3), [3, 4, 5, 6, 7, 8, 11, 12, 13])"
  by code_simp

lemma frame_a_patch_3_2: "extract_patch frame_a 3 2 1 = ((3, 3), [5, 6, 7, 10, 11, 12, 17, 18, 19])"
  by code_simp

lemma std_patch_2_3: "std [3, 4, 5, 6, 7, 8, 11, 12, 13] \<noteq> 0"
  by (simp add: std_def mean_def power2_eq_square)

lemma std_patch_3_2: "std [5, 6, 7, 10, 11, 12, 17, 18, 19] \<noteq> 0"
  by (simp add: std_def mean_def power2_eq_square)

lemma track_frame_a:
  "track_features [frame_a, frame_a] keypoints_a (3 / 2) refine_once 2 = Inr trajectory_a"
  unfolding keypoints_a_def trajectory_a_def
  by (simp add: track_features_def track_step_def refine_once_frame_a array_add_def
      np_hstack_def vadd_def keep_point_def out_of_frame_def frame_a_shape py_round_examples
      frame_a_patch_2_3 frame_a_patch_3_2 compute_error_same [OF std_patch_2_3]
      compute_error_same [OF std_patch_3_2] List.map_filter_simps)

text \<open>
  C9. Whenever \<open>track_features\<close> returns, each entry of the trajectory is at most as long
  as the one before, and it lists, in their order, the rounded next positions of a
  subsequence of the rows \<open>(current, next)\<close> of the previous entry: the survivors keep
  their relative order.
\<close>

theorem trajectory_shrinks_in_order:
  assumes "track_features frames keypoints error_thresh optflow_fn exclude_border = Inr trajectory"
    and "Suc i < length trajectory"
  shows "length (trajectory ! Suc i) \<le> length (trajectory ! i)
     \<and> (\<exists>flows nxt ns.
            optflow_fn (frames ! i) (frames ! Suc i) (trajectory ! i) = Inr flows
          \<and> array_add (trajectory ! i) flows = Inr nxt
          \<and> subseq ns (zip (trajectory ! i) nxt)
          \<and> subseq (map fst ns) (trajectory ! i)
          \<and> trajectory ! Suc i = map (round_point \<circ> snd) ns)"
proof -
  from track_step_survivors [OF track_features_consecutive [OF assms]]
  obtain flows nxt ns where
      f: "optflow_fn (frames ! i) (frames ! Suc i) (trajectory ! i) = Inr flows"
      and a: "array_add (trajectory ! i) flows = Inr nxt"
      and len: "length nxt = length (trajectory ! i)"
      and sub: "subseq ns (zip (trajectory ! i) nxt)"
      and eq: "trajectory ! Suc i = map (round_point \<circ> snd) ns"
    by blast
  from sub have "length ns \<le> length (zip (trajectory ! i) nxt)"
    by (rule list_emb_length)
  with len eq have le: "length (trajectory ! Suc i) \<le> length (trajectory ! i)"
    by simp
  from sub have "subseq (map fst ns) (map fst (zip (trajectory ! i) nxt))"
    by (rule subseq_map)
  with len have "subseq (map fst ns) (trajectory ! i)"
    by simp
  with le f a sub eq show ?thesis by blast
qed

theorem trajectory_shrinks_in_order_witness:
  "track_features [frame_a, frame_a] keypoints_a (3 / 2) refine_once 2 = Inr trajectory_a
   \<and> Suc 0 < length trajectory_a
   \<and> length (trajectory_a ! Suc 0) \<le> length (trajectory_a ! 0)
   \<and> (\<exists>ns. subseq (map fst ns) (trajectory_a ! 0)
           \<and> trajectory_a ! Suc 0 = map (round_point \<circ> snd) ns)"
proof -
  have l: "Suc 0 < length trajectory_a"
    by (simp add: trajectory_a_def)
  from trajectory_shrinks_in_order [OF track_frame_a l] track_frame_a l
  show ?thesis by blast
qed

text \<open>
  C10. The first entry of the trajectory is the caller's keypoint array as it was given;
  every row of every later entry is the rounded next position
  \<^verbatim>\<open>[int(round(yj)), int(round(xj))]\<close> of a row of \<^verbatim>\<open>kp_curr + flow_vectors\<close>, so the
  fractional part of the estimate is dropped at each frame transition.
\<close>

theorem trajectory_entries_rounded:
  assumes "track_features frames keypoints error_thresh optflow_fn exclude_border = Inr trajectory"
    and "Suc i < length trajectory"
    and "p \<in> set (trajectory ! Suc i)"
  shows "trajectory ! 0 = keypoints
     \<and> (\<exists>flows nxt q.
            optflow_fn (frames ! i) (frames ! Suc i) (trajectory ! i) = Inr flows
          \<and> array_add (trajectory ! i) flows = Inr nxt
          \<and> q \<in> set nxt
          \<and> p = (of_int (py_round (fst q)), of_int (py_round (snd q))))"
proof -
  from track_step_survivors [OF track_features_consecutive [OF assms(1,2)]]
  obtain flows nxt ns where
      f: "optflow_fn (frames ! i) (frames ! Suc i) (trajectory ! i) = Inr flows"
      and a: "array_add (trajectory ! i) flows = Inr nxt"
      and sub: "subseq ns (zip (trajectory ! i) nxt)"
      and eq: "trajectory ! Suc i = map (round_point \<circ> snd) ns"
    by blast
  from assms(3) eq obtain r where r: "r \<in> set ns" and p: "p = round_point (snd r)"
    by auto
  from sub r have "r \<in> set (zip (trajectory ! i) nxt)"
    by (auto dest: list_emb_set)
  then have "snd r \<in> set nxt"
    by (metis prod.collapse set_zip_rightD)
  with p f a track_features_first [OF assms(1)] show ?thesis
    unfolding round_point_def by blast
qed

theorem trajectory_entries_rounded_witness:
  "track_features [frame_a, frame_a] keypoints_a (3 / 2) refine_once 2 = Inr trajectory_a
   \<and> Suc 0 < length trajectory_a
   \<and> (2, 3) \<in> set (trajectory_a ! Suc 0)
   \<and> trajectory_a ! 0 = keypoints_a
   \<and> (\<exists>q. (2, 3) = (real_of_int (py_round (fst q)), real_of_int (py_round (snd q))))"
proof -
  have l: "Suc 0 < length trajectory_a"
    by (simp add: trajectory_a_def)
  have m: "(2, 3) \<in> set (trajectory_a ! Suc 0)"
    by (simp add: trajectory_a_def)
  from trajectory_entries_rounded [OF track_frame_a l m] track_frame_a l m
  show ?thesis by blast
qed

subsection \<open>The pyramid\<close>

lemma iterative_length:
  "iterative_lucas_kanade img1 img2 keypoints ws iters g = Inr d \<Longrightarrow> length d = length keypoints"
  by (auto simp: iterative_lucas_kanade_def np_hstack_def Let_def
      split: if_splits sum.splits prod.splits dest!: for_each_length)






lemma scaled_sum:
  "map (vscale s) (map2 vadd g d) = map2 (\<lambda>(gy, gx) (dy, dx). (s * (gy + dy), s * (gx + dx))) g d"
  by (induction g arbitrary: d)
     (simp_all add: vscale_def vadd_def case_prod_unfold split: list.splits)

lemma level_loop_coarse_to_fine:
  assumes "n < length pyramid1" "n < length pyramid2" "scale \<noteq> 0"
    and "keypoints \<noteq> []" and "length g = length keypoints"
  shows "(case level_loop pyramid1 pyramid2 keypoints ws iters scale (rev [0..<Suc n]) (g, dopt) of
            Inl e \<Rightarrow> Inl e
          | Inr (g', None) \<Rightarrow> Inl UnboundLocalError
          | Inr (g', Some d) \<Rightarrow> guess_add g' d)
         = coarse_to_fine (\<lambda>l g. iterative_lucas_kanade (pyramid1 ! l) (pyramid2 ! l)
               (rescale keypoints scale l) ws iters (Some g)) scale n g"
  using assms
proof (induction n arbitrary: g dopt)
  case 0
  then have "g \<noteq> []" by auto
  with 0 show ?case
    by (simp add: index_def rescale_def case_prod_unfold guess_add_def vadd_def
        split: sum.splits)
next
  case (Suc n)
  have r: "rev [0..<Suc (Suc n)] = Suc n # rev [0..<Suc n]" by simp
  from Suc.prems have lt: "n < length pyramid1" "n < length pyramid2" by simp_all
  from Suc.prems have g: "g \<noteq> []" by auto
  show ?case
  proof (cases "iterative_lucas_kanade (pyramid1 ! Suc n) (pyramid2 ! Suc n)
               (rescale keypoints scale (Suc n)) ws iters (Some g)")
    case (Inl e)
    with Suc.prems show ?thesis
      unfolding r by (simp add: index_def rescale_def case_prod_unfold)
  next
    case (Inr d)
    let ?g = "map (vscale scale) (map2 vadd g d)"
    from Inr have "length d = length keypoints"
      by (auto dest: iterative_length simp: rescale_def)
    with Suc.prems have len: "length ?g = length keypoints"
      by simp
    from Inr Suc.prems g have step:
      "level_loop pyramid1 pyramid2 keypoints ws iters scale (Suc n # rev [0..<Suc n]) (g, dopt)
         = level_loop pyramid1 pyramid2 keypoints ws iters scale (rev [0..<Suc n]) (?g, Some d)"
      by (simp add: index_def rescale_def case_prod_unfold guess_add_def del: upt_Suc)
    from Inr have spec:
      "coarse_to_fine (\<lambda>l g. iterative_lucas_kanade (pyramid1 ! l) (pyramid2 ! l)
               (rescale keypoints scale l) ws iters (Some g)) scale (Suc n) g
         = coarse_to_fine (\<lambda>l g. iterative_lucas_kanade (pyramid1 ! l) (pyramid2 ! l)
               (rescale keypoints scale l) ws iters (Some g)) scale n ?g"
      by (simp only: coarse_to_fine.simps sum.case scaled_sum)
    show ?thesis
      unfolding r step spec by (rule Suc.IH [OF lt Suc.prems(3,4) len])
  qed
qed

text \<open>
  C7. For a level \<open>L \<ge> 0\<close>, pyramids that hold the levels \<open>0..L\<close>, a non-zero scale and
  at least one keypoint, \<open>pyramid_lucas_kanade\<close> is the coarse-to-fine scheme started at
  level \<open>L\<close> with the zero guess: at each level the keypoints are divided by
  \<open>scale ^ l\<close>, the iterative refiner runs with the guess \<open>g\<close> and gives \<open>d\<close>, the guess
  becomes \<open>scale * (g + d)\<close> above level 0, and \<open>g + d\<close> is returned at level 0.
\<close>

theorem pyramid_coarse_to_fine:
  assumes "pyramid_gaussian img1 level scale = Inr pyramid1"
    and "pyramid_gaussian img2 level scale = Inr pyramid2"
    and "0 \<le> level" and "nat level < length pyramid1" and "nat level < length pyramid2"
    and "scale \<noteq> 0" and "keypoints \<noteq> []"
  shows "pyramid_lucas_kanade pyramid_gaussian img1 img2 keypoints window_size num_iters level scale
     = coarse_to_fine (\<lambda>l g. iterative_lucas_kanade (pyramid1 ! l) (pyramid2 ! l)
           (rescale keypoints scale l) window_size num_iters (Some g))
         scale (nat level) (map (\<lambda>_. (0, 0)) keypoints)"
proof -
  from assms(3) have "nat (level + 1) = Suc (nat level)" by simp
  moreover have "length (map (\<lambda>_. (0 :: real, 0 :: real)) keypoints) = length keypoints"
    by simp
  note level_loop_coarse_to_fine [OF assms(4,5,6,7) this, of window_size num_iters None]
  ultimately show ?thesis
    using assms(1,2) by (simp add: pyramid_lucas_kanade_def)
qed

text \<open>
  A run on two levels. At level 1 the refiner finds \<open>d = (0, 2)\<close>; the guess for level 0
  is \<open>2 * ((0, 0) + (0, 2)) = (0, 4)\<close>, with which the refiner finds \<open>d = (0, 0)\<close> there,
  and the flow is \<open>(0, 4)\<close>. With the guess \<open>(0, 2)\<close> at level 0 the refiner would sample
  the blank column of \<open>frame_g\<close> and find another \<open>d\<close>.
\<close>

lemma frame_g_coarse_flow:
  "iterative_lucas_kanade (halve frame_f) (halve frame_g) (rescale [(2, 2)] 2 (Suc 0)) 3 1
     (Some [(0, 0)]) = Inr [(0, 2)]"
  by code_simp

lemma frame_g_fine_flow:
  "iterative_lucas_kanade frame_f frame_g (rescale [(2, 2)] 2 0) 3 1 (Some [(0, 4)])
     = Inr [(0, 0)]"
  by code_simp

lemma frame_g_pyramid_flow:
  "pyramid_lucas_kanade pyramid_a frame_f frame_g [(2, 2)] 3 1 1 2 = Inr [(0, 4)]"
  by code_simp

lemma frame_g_fine_flow_unscaled:
  "iterative_lucas_kanade frame_f frame_g (rescale [(2, 2)] 2 0) 3 1 (Some [(0, 2)])
     = Inr [(7 / 13, 47 / 39)]"
  by code_simp

theorem pyramid_coarse_to_fine_witness:
  "pyramid_a frame_f 1 2 = Inr [frame_f, halve frame_f]
   \<and> pyramid_a frame_g 1 2 = Inr [frame_g, halve frame_g]
   \<and> (0 :: int) \<le> 1
   \<and> nat 1 < length [frame_f, halve frame_f]
   \<and> nat 1 < length [frame_g, halve frame_g]
   \<and> (2 :: real) \<noteq> 0
   \<and> [(2, 2)] \<noteq> ([] :: point list)
   \<and> pyramid_lucas_kanade pyramid_a frame_f frame_g [(2, 2)] 3 1 1 2
       = coarse_to_fine (\<lambda>l g. iterative_lucas_kanade ([frame_f, halve frame_f] ! l)
             ([frame_g, halve frame_g] ! l) (rescale [(2, 2)] 2 l) 3 1 (Some g))
           2 (nat 1) (map (\<lambda>_. (0, 0)) [(2 :: real, 2 :: real)])
   \<and> pyramid_lucas_kanade pyramid_a frame_f frame_g [(2, 2)] 3 1 1 2 = Inr [(0, 4)]"
proof -
  have f: "pyramid_a frame_f 1 2 = Inr [frame_f, halve frame_f]"
    and g: "pyramid_a frame_g 1 2 = Inr [frame_g, halve frame_g]"
    by (simp_all add: pyramid_a_def)
  have z: "(0 :: int) \<le> 1" and s: "(2 :: real) \<noteq> 0" and n: "[(2, 2)] \<noteq> ([] :: point list)"
    by simp_all
  have lf: "nat 1 < length [frame_f, halve frame_f]"
    and lg: "nat 1 < length [frame_g, halve frame_g]"
    by simp_all
  note eq = pyramid_coarse_to_fine [of pyramid_a frame_f 1 2 "[frame_f, halve frame_f]" frame_g
      "[frame_g, halve frame_g]" "[(2, 2)]" 3 1, OF f g z lf lg s n]
  have "coarse_to_fine (\<lambda>l g. iterative_lucas_kanade ([frame_f, halve frame_f] ! l)
             ([frame_g, halve frame_g] ! l) (rescale [(2, 2)] 2 l) 3 1 (Some g))
           2 (nat 1) (map (\<lambda>_. (0, 0)) [(2 :: real, 2 :: real)]) = Inr [(0, 4)]"
    by (simp add: frame_g_coarse_flow frame_g_fine_flow)
  with eq f g z lf lg s n show ?thesis by simp
qed

subsection \<open>Patch error of a constant patch\<close>

lemma foldl_np_add_NaN: "foldl np_add NaN vs = NaN"
  by (induction vs) auto

lemma np_mean_all_NaN: "\<forall>v\<in>set vs. v = NaN \<Longrightarrow> np_mean vs = NaN"
proof (cases vs)
  case Nil
  then show ?thesis by (simp add: np_mean_def)
next
  case (Cons v vs')
  assume "\<forall>v\<in>set vs. v = NaN"
  with Cons have "v = NaN" by simp
  with Cons show ?thesis
    by (simp add: np_mean_def foldl_np_add_NaN)
qed

lemma mean_constant: "xs \<noteq> [] \<Longrightarrow> \<forall>v\<in>set xs. v = c \<Longrightarrow> mean xs = c"
proof -
  assume ne: "xs \<noteq> []" and "\<forall>v\<in>set xs. v = c"
  then have "xs = replicate (length xs) c"
    by (simp add: replicate_length_same)
  then have "sum_list xs = real (length xs) * c"
    by (metis sum_list_replicate)
  with ne show ?thesis by (simp add: mean_def)
qed

lemma std_constant: "\<forall>v\<in>set xs. v = c \<Longrightarrow> std xs = 0"
proof (cases "xs = []")
  case True
  then show ?thesis by (simp add: std_def mean_def)
next
  case False
  assume c: "\<forall>v\<in>set xs. v = c"
  from False c have m: "mean xs = c" by (rule mean_constant)
  from c have "sum_list (map (\<lambda>v. (v - c)\<^sup>2) xs) = 0"
    by (induction xs) auto
  with m show ?thesis by (simp add: std_def mean_def)
qed

lemma normalize_constant:
  assumes "\<forall>v\<in>set xs. v = c"
  shows "\<forall>v\<in>set (normalize xs). v = NaN"
proof (cases "xs = []")
  case True
  then show ?thesis by (simp add: normalize_def)
next
  case False
  from False assms have "mean xs = c" by (rule mean_constant)
  with assms std_constant [OF assms] show ?thesis
    by (simp add: normalize_def)
qed

lemma np_sub_NaN: "np_sub NaN b = NaN" "np_sub a NaN = NaN"
  by (cases a; simp add: np_sub_def)+

lemma squares_NaN_left:
  "\<forall>v\<in>set xs. v = NaN \<Longrightarrow>
   \<forall>v\<in>set (map2 (\<lambda>a b. np_square (np_sub a b)) xs ys). v = NaN"
proof (induction xs arbitrary: ys)
  case Nil
  show ?case by simp
next
  case (Cons x xs)
  then show ?case
    by (cases ys) (simp_all add: np_sub_NaN)
qed

lemma squares_NaN_right:
  "\<forall>v\<in>set ys. v = NaN \<Longrightarrow>
   \<forall>v\<in>set (map2 (\<lambda>a b. np_square (np_sub a b)) xs ys). v = NaN"
proof (induction ys arbitrary: xs)
  case Nil
  show ?case by simp
next
  case (Cons y ys)
  then show ?case
    by (cases xs) (simp_all add: np_sub_NaN)
qed

lemma compute_error_constant:
  assumes "fst patch1 = fst patch2"
    and "(\<forall>v\<in>set (snd patch1). v = c) \<or> (\<forall>v\<in>set (snd patch2). v = c)"
  shows "compute_error patch1 patch2 = Inr NaN"
proof -
  let ?sq = "map2 (\<lambda>a b. np_square (np_sub a b)) (normalize (snd patch1)) (normalize (snd patch2))"
  from assms(2) have "(\<forall>v\<in>set (normalize (snd patch1)). v = NaN)
      \<or> (\<forall>v\<in>set (normalize (snd patch2)). v = NaN)"
    by (auto dest: normalize_constant)
  then have "\<forall>v\<in>set ?sq. v = NaN"
    using squares_NaN_left squares_NaN_right by blast
  then have "np_mean ?sq = NaN" by (rule np_mean_all_NaN)
  with assms(1) show ?thesis by (simp add: compute_error_def)
qed

lemma map_filter_member: "Some p \<in> set kept \<Longrightarrow> p \<in> set (List.map_filter id kept)"
  by (force simp: List.map_filter_def)

lemma track_step_row:
  assumes "track_step optflow_fn t eb I J kp = Inr kp'"
    and "optflow_fn I J kp = Inr flows" and "array_add kp flows = Inr nxt"
    and "k < length kp"
  shows "\<exists>r. keep_point I J t eb (kp ! k, nxt ! k) = Inr r
            \<and> (\<forall>p. r = Some p \<longrightarrow> p \<in> set kp')"
proof -
  from assms(1-3) obtain kept where
      len: "length nxt = length kp"
      and k: "for_each (keep_point I J t eb) (zip kp nxt) = Inr kept"
      and r: "kp' = List.map_filter id kept"
    by (auto simp: track_step_def np_hstack_def split: sum.splits if_splits)
  from for_each_all2 [OF k] assms(4) len
  have "keep_point I J t eb (zip kp nxt ! k) = Inr (kept ! k)" and "k < length kept"
    by (auto simp: list_all2_conv_all_nth)
  with assms(4) len r show ?thesis
    by (auto intro!: map_filter_member) (metis nth_mem)
qed

lemma refine_wide_frame_d: "refine_wide frame_d frame_d [(3, 3)] = Inr [(0, 0)]"
  by code_simp

lemma frame_d_shape: "height frame_d = 7" "width frame_d = 7"
  by code_simp+

lemma frame_d_patch: "extract_patch frame_d 3 3 1 = ((3, 3), [0, 0, 0, 0, 0, 0, 0, 0, 0])"
  by code_simp

lemma frame_d_window: "concat (window frame_d 3 3 1) = [0, 0, 0, 0, 0, 0, 0, 0, 0]"
  by code_simp

lemma frame_d_error:
  "compute_error ((3, 3), [0, 0, 0, 0, 0, 0, 0, 0, 0]) ((3, 3), [0, 0, 0, 0, 0, 0, 0, 0, 0])
     = Inr NaN"
  by (rule compute_error_constant [where c = 0]) simp_all

lemma track_frame_d:
  "track_features [frame_d, frame_d] [(3, 3)] (3 / 2) refine_wide 1 = Inr [[(3, 3)], [(3, 3)]]"
  by (simp add: track_features_def track_step_def refine_wide_frame_d array_add_def
      np_hstack_def vadd_def keep_point_def out_of_frame_def frame_d_shape py_round_examples
      frame_d_patch frame_d_error List.map_filter_simps)

text \<open>
  C3, as stated, fails. \<open>compute_error\<close> has no case for a patch of zero variance: the
  division of a zero deviation by the zero standard deviation gives NaN samples, the
  error is NaN, and \<^verbatim>\<open>error > error_thresh\<close> is false for a NaN. In \<open>frame_d\<close> the
  3\<times>3 patch around \<open>(3, 3)\<close> is zero in both frames, and the keypoint is in the next
  trajectory entry.
\<close>

theorem constant_patch_not_dropped:
  "extract_patch frame_d 3 3 1 = ((3, 3), [0, 0, 0, 0, 0, 0, 0, 0, 0])
   \<and> track_features [frame_d, frame_d] [(3, 3)] (3 / 2) refine_wide 1
       = Inr [[(3, 3)], [(3, 3)]]"
  using frame_d_patch track_frame_d by simp

text \<open>
  C3, amended. In a run of \<open>track_features\<close> that returns, take row \<open>k\<close> of the entry for
  frame \<open>i\<close> and its next position. If the rounded next position passes the border test
  and the current or the next 3\<times>3 patch is constant with an integer sample value \<open>c\<close>,
  \<open>\<bar>c\<bar> \<le> 2\<^sup>2\<^sup>0\<close>, for which the sums of the samples, their mean \<open>c\<close> and the standard
  deviation 0 are exact in floating point too, then the patch error is NaN and the
  rounded next position is in the entry for frame \<open>i + 1\<close>: the keypoint is kept.
\<close>

theorem constant_patch_survives:
  assumes "track_features frames keypoints error_thresh optflow_fn exclude_border = Inr trajectory"
    and "Suc i < length trajectory"
    and "optflow_fn (frames ! i) (frames ! Suc i) (trajectory ! i) = Inr flows"
    and "array_add (trajectory ! i) flows = Inr nxt"
    and "k < length (trajectory ! i)"
    and "yi = py_round (fst (trajectory ! i ! k))" and "xi = py_round (snd (trajectory ! i ! k))"
    and "yj = py_round (fst (nxt ! k))" and "xj = py_round (snd (nxt ! k))"
    and "\<not> out_of_frame (frames ! Suc i) exclude_border yj xj"
    and "\<bar>c\<bar> \<le> 2 ^ 20"
    and "(\<forall>v\<in>set (concat (window (frames ! i) yi xi 1)). v = of_int c)
         \<or> (\<forall>v\<in>set (concat (window (frames ! Suc i) yj xj 1)). v = of_int c)"
  shows "compute_error (extract_patch (frames ! i) yi xi 1) (extract_patch (frames ! Suc i) yj xj 1)
           = Inr NaN
       \<and> (of_int yj, of_int xj) \<in> set (trajectory ! Suc i)"
proof -
  let ?I = "frames ! i" and ?J = "frames ! Suc i"
  from track_step_row [OF track_features_consecutive [OF assms(1,2)] assms(3,4,5)]
  obtain r where r: "keep_point ?I ?J error_thresh exclude_border (trajectory ! i ! k, nxt ! k) = Inr r"
      and mem: "\<forall>p. r = Some p \<longrightarrow> p \<in> set (trajectory ! Suc i)"
    by blast
  from r assms(6-10) have sh: "fst (extract_patch ?I yi xi 1) = fst (extract_patch ?J yj xj 1)"
    by (auto simp: keep_point_def compute_error_def Let_def split: if_splits)
  from assms(12) have "(\<forall>v\<in>set (snd (extract_patch ?I yi xi 1)). v = of_int c)
      \<or> (\<forall>v\<in>set (snd (extract_patch ?J yj xj 1)). v = of_int c)"
    by (simp add: extract_patch_def)
  with sh have e: "compute_error (extract_patch ?I yi xi 1) (extract_patch ?J yj xj 1) = Inr NaN"
    by (rule compute_error_constant)
  with r assms(6-10) have "r = Some (of_int yj, of_int xj)"
    by (auto simp: keep_point_def Let_def)
  with mem e show ?thesis by blast
qed

theorem constant_patch_survives_witness:
  "track_features [frame_d, frame_d] [(3, 3)] (3 / 2) refine_wide 1 = Inr [[(3, 3)], [(3, 3)]]
   \<and> \<not> out_of_frame ([frame_d, frame_d] ! Suc 0) 1 3 3
   \<and> concat (window ([frame_d, frame_d] ! 0) 3 3 1) = [0, 0, 0, 0, 0, 0, 0, 0, 0]
   \<and> compute_error (extract_patch ([frame_d, frame_d] ! 0) 3 3 1)
         (extract_patch ([frame_d, frame_d] ! Suc 0) 3 3 1) = Inr NaN
   \<and> (real_of_int 3, real_of_int 3) \<in> set ([[(3, 3)], [(3, 3)]] ! Suc 0)"
proof -
  have l: "Suc 0 < length [[(3, 3)], [(3 :: real, 3 :: real)]]"
    by simp
  have f: "refine_wide ([frame_d, frame_d] ! 0) ([frame_d, frame_d] ! Suc 0)
             ([[(3, 3)], [(3, 3)]] ! 0) = Inr [(0, 0)]"
    by (simp add: refine_wide_frame_d)
  have a: "array_add ([[(3, 3)], [(3, 3)]] ! 0) [(0, 0)] = Inr [(3, 3)]"
    by (simp add: array_add_def vadd_def)
  have k: "0 < length ([[(3, 3)], [(3 :: real, 3 :: real)]] ! 0)"
    by simp
  have yi: "3 = py_round (fst ([[(3, 3)], [(3, 3)]] ! 0 ! 0))"
    and xi: "3 = py_round (snd ([[(3, 3)], [(3, 3)]] ! 0 ! 0))"
    and yj: "3 = py_round (fst ([(3, 3)] ! 0))"
    and xj: "3 = py_round (snd ([(3, 3)] ! 0))"
    by (simp_all add: py_round_examples)
  have b: "\<not> out_of_frame ([frame_d, frame_d] ! Suc 0) 1 3 3"
    by (simp add: out_of_frame_def frame_d_shape)
  have w: "concat (window ([frame_d, frame_d] ! 0) 3 3 1) = [0, 0, 0, 0, 0, 0, 0, 0, 0]"
    by (simp add: frame_d_window)
  then have c: "(\<forall>v\<in>set (concat (window ([frame_d, frame_d] ! 0) 3 3 1)). v = of_int 0)
      \<or> (\<forall>v\<in>set (concat (window ([frame_d, frame_d] ! Suc 0) 3 3 1)). v = of_int 0)"
    by simp
  have z: "\<bar>0 :: int\<bar> \<le> 2 ^ 20"
    by simp
  from constant_patch_survives [OF track_frame_d l f a k yi xi yj xj b z c] track_frame_d b w
  show ?thesis by blast
qed

subsection \<open>The border test\<close>

lemma slice_bounds_inside:
  "0 \<le> a \<Longrightarrow> a \<le> b \<Longrightarrow> b \<le> int n \<Longrightarrow> slice_bounds n a b = (nat a, nat b)"
  by (simp add: slice_bounds_def)

lemma refine_once_limits:
  "refine_once frame_a frame_a [(2, 2), (3, 3)] = Inr [(0, 0), (0, 0)]"
  by code_simp

lemma frame_a_patch_2_2: "extract_patch frame_a 2 2 1 = ((3, 3), [2, 3, 4, 5, 6, 7, 10, 11, 12])"
  by code_simp

lemma frame_a_patch_3_3: "extract_patch frame_a 3 3 1 = ((3, 3), [6, 7, 8, 11, 12, 13, 18, 19, 20])"
  by code_simp

lemma std_patch_2_2: "std [2, 3, 4, 5, 6, 7, 10, 11, 12] \<noteq> 0"
  by (simp add: std_def mean_def power2_eq_square)

lemma std_patch_3_3: "std [6, 7, 8, 11, 12, 13, 18, 19, 20] \<noteq> 0"
  by (simp add: std_def mean_def power2_eq_square)

text \<open>
  C5, as stated, fails. The test drops a row \<open>yj\<close> with \<open>yj < exclude_border\<close> or
  \<open>yj > H - exclude_border - 1\<close>, both strict. In a frame of six rows and columns with
  \<open>exclude_border = 2\<close> the positions \<open>(2, 2)\<close> and \<open>(3, 3)\<close> are exactly two pixels from the
  first and from the last row and column, and both are kept.
\<close>

theorem keypoint_at_limit_kept:
  "track_features [frame_a, frame_a] [(2, 2), (3, 3)] (3 / 2) refine_once 2
     = Inr [[(2, 2), (3, 3)], [(2, 2), (3, 3)]]"
  by (simp add: track_features_def track_step_def refine_once_limits array_add_def
      np_hstack_def vadd_def keep_point_def out_of_frame_def frame_a_shape py_round_examples
      frame_a_patch_2_2 frame_a_patch_3_3 compute_error_same [OF std_patch_2_2]
      compute_error_same [OF std_patch_3_3] List.map_filter_simps)

text \<open>
  C5, amended. A keypoint whose rounded next row and column lie in
  \<open>exclude_border .. H - 1 - exclude_border\<close> and \<open>exclude_border .. W - 1 - exclude_border\<close>,
  the limits included, passes the border test and is kept unless its patch error exceeds
  the threshold; any other keypoint, so one whose row or column is one pixel further out,
  is dropped. For \<open>exclude_border \<ge> 1\<close> the 3\<times>3 patch around a next position that
  passes the test lies inside the frame.
\<close>

theorem border_test_limits:
  assumes "py_round (fst kp_i) = yi" and "py_round (snd kp_i) = xi"
    and "py_round (fst kp_j) = yj" and "py_round (snd kp_j) = xj"
  shows "keep_point I J error_thresh exclude_border (kp_i, kp_j) =
          (if exclude_border \<le> yj \<and> yj \<le> int (height J) - 1 - exclude_border
              \<and> exclude_border \<le> xj \<and> xj \<le> int (width J) - 1 - exclude_border
           then (case compute_error (extract_patch I yi xi 1) (extract_patch J yj xj 1) of
                   Inl e \<Rightarrow> Inl e
                 | Inr err \<Rightarrow> if np_gt err error_thresh then Inr None
                             else Inr (Some (of_int yj, of_int xj)))
           else Inr None)
      \<and> (1 \<le> exclude_border
           \<and> exclude_border \<le> yj \<and> yj \<le> int (height J) - 1 - exclude_border
           \<and> exclude_border \<le> xj \<and> xj \<le> int (width J) - 1 - exclude_border
          \<longrightarrow> window_shape J yj xj 1 = (3, 3))"
proof -
  have "out_of_frame J exclude_border yj xj \<longleftrightarrow>
      \<not> (exclude_border \<le> yj \<and> yj \<le> int (height J) - 1 - exclude_border
         \<and> exclude_border \<le> xj \<and> xj \<le> int (width J) - 1 - exclude_border)"
    by (auto simp: out_of_frame_def)
  with assms have first: "keep_point I J error_thresh exclude_border (kp_i, kp_j) =
          (if exclude_border \<le> yj \<and> yj \<le> int (height J) - 1 - exclude_border
              \<and> exclude_border \<le> xj \<and> xj \<le> int (width J) - 1 - exclude_border
           then (case compute_error (extract_patch I yi xi 1) (extract_patch J yj xj 1) of
                   Inl e \<Rightarrow> Inl e
                 | Inr err \<Rightarrow> if np_gt err error_thresh then Inr None
                             else Inr (Some (of_int yj, of_int xj)))
           else Inr None)"
    by (auto simp: keep_point_def Let_def split: sum.splits)
  have second: "window_shape J yj xj 1 = (3, 3)"
    if "1 \<le> exclude_border" "exclude_border \<le> yj" "yj \<le> int (height J) - 1 - exclude_border"
      "exclude_border \<le> xj" "xj \<le> int (width J) - 1 - exclude_border"
  proof -
    from that have "slice_bounds (height J) (yj - 1) (yj + 1 + 1) = (nat (yj - 1), nat (yj + 1 + 1))"
      by (intro slice_bounds_inside) simp_all
    moreover from that
    have "slice_bounds (width J) (xj - 1) (xj + 1 + 1) = (nat (xj - 1), nat (xj + 1 + 1))"
      by (intro slice_bounds_inside) simp_all
    moreover from that have "nat (yj + 1 + 1) - nat (yj - 1) = 3" "nat (xj + 1 + 1) - nat (xj - 1) = 3"
      by simp_all
    ultimately show ?thesis
      by (simp add: window_shape_def)
  qed
  from first second show ?thesis by blast
qed

theorem border_test_limits_witness:
  "keep_point frame_a frame_a (3 / 2) 2 ((2, 2), (2, 2)) = Inr (Some (2, 2))
   \<and> keep_point frame_a frame_a (3 / 2) 2 ((1, 2), (1, 2)) = Inr None
   \<and> window_shape frame_a 2 2 1 = (3, 3)"
proof -
  have r: "py_round (fst (2, 2)) = 2" "py_round (snd (2, 2)) = 2"
      "py_round (fst (1, 2)) = 1" "py_round (snd (1, 2)) = 2"
    by (simp_all add: py_round_examples)
  from border_test_limits [OF r(1,2,1,2), of frame_a frame_a "3 / 2" 2]
  have "keep_point frame_a frame_a (3 / 2) 2 ((2, 2), (2, 2)) = Inr (Some (2, 2))"
      and "window_shape frame_a 2 2 1 = (3, 3)"
    by (simp_all add: frame_a_shape frame_a_patch_2_2 compute_error_same [OF std_patch_2_2])
  moreover from border_test_limits [OF r(3,4,3,4), of frame_a frame_a "3 / 2" 2]
  have "keep_point frame_a frame_a (3 / 2) 2 ((1, 2), (1, 2)) = Inr None"
    by (simp add: frame_a_shape)
  ultimately show ?thesis by simp
qed

subsection \<open>A singular matrix in the refiner\<close>

lemma for_each_member:
  "for_each f xs = Inr ys \<Longrightarrow> x \<in> set xs \<Longrightarrow> \<exists>y. f x = Inr y"
  by (induction xs arbitrary: ys) (auto split: sum.splits)

lemma point_singular:
  "det2 (keypoint_G Iy Ix window_size kp) = 0 \<Longrightarrow>
   iterative_lucas_kanade_point img1 img2 Iy Ix window_size num_iters (kp, g) = Inl LinAlgError"
  by (simp add: iterative_lucas_kanade_point_def keypoint_G_def linalg_inv_def Let_def)

text \<open>
  C4, as stated, fails. \<^verbatim>\<open>np.linalg.inv\<close> raises on the zero matrix and nothing in the
  loop catches it: the exception leaves \<open>iterative_lucas_kanade\<close>, and the flow vectors
  already computed are lost. In \<open>frame_e\<close> the keypoint \<open>(1, 1)\<close> alone gets its flow; with
  the keypoint \<open>(1, 5)\<close>, whose window is flat and whose \<open>G\<close> is zero, added to the call,
  the call raises.
\<close>

theorem singular_G_aborts_batch:
  "iterative_lucas_kanade frame_e frame_e [(1, 1)] 3 1 None = Inr [(0, 0)]
   \<and> iterative_lucas_kanade frame_e frame_e [(1, 1), (1, 5)] 3 1 None = Inl LinAlgError"
  by code_simp

lemma zero_row_singular: "fst M = (0, 0) \<or> snd M = (0, 0) \<Longrightarrow> det2 M = 0"
  by (cases M) (auto simp: det2_def)

text \<open>
  C4, amended. Take a call of the iterative refiner on a keypoint set in which, for some
  keypoint, a row of \<open>G\<close> is zero: the window has no gradient along \<open>x\<close>, or none along
  \<open>y\<close>, as a flat window has. Then \<^verbatim>\<open>np.linalg.inv\<close> raises on a zero pivot, and the
  whole call is aborted: it raises and returns no flow vector, for no keypoint.
\<close>

theorem zero_row_G_aborts_call:
  assumes "np_gradient img1 = Inr (Iy, Ix)"
    and "kp \<in> set keypoints"
    and "fst (keypoint_G Iy Ix window_size kp) = (0, 0)
         \<or> snd (keypoint_G Iy Ix window_size kp) = (0, 0)"
  shows "\<exists>e. iterative_lucas_kanade img1 img2 keypoints window_size num_iters g = Inl e"
proof (cases "iterative_lucas_kanade img1 img2 keypoints window_size num_iters g")
  case (Inl e)
  then show ?thesis by blast
next
  case (Inr flows)
  with assms(1) obtain gs where len: "length keypoints = length gs"
      and run: "for_each (iterative_lucas_kanade_point img1 img2 Iy Ix window_size num_iters)
                  (zip keypoints gs) = Inr flows"
    by (auto simp: iterative_lucas_kanade_def np_hstack_def Let_def split: if_splits sum.splits)
  from assms(2) len obtain gk where "(kp, gk) \<in> set (zip keypoints gs)"
    by (metis in_set_impl_in_set_zip1)
  from for_each_member [OF run this] point_singular [OF zero_row_singular [OF assms(3)]]
  show ?thesis by auto
qed

theorem zero_row_G_aborts_call_witness:
  "np_gradient frame_e = Inr (frame_e_Iy, frame_e_Ix)
   \<and> (1, 5) \<in> set [(1, 1), (1 :: real, 5 :: real)]
   \<and> keypoint_G frame_e_Iy frame_e_Ix 3 (1, 5) = ((0, 0), (0, 0))
   \<and> (\<exists>e. iterative_lucas_kanade frame_e frame_e [(1, 1), (1, 5)] 3 1 None = Inl e)"
proof -
  have g: "np_gradient frame_e = Inr (frame_e_Iy, frame_e_Ix)"
    by code_simp
  have m: "(1, 5) \<in> set [(1, 1), (1 :: real, 5 :: real)]"
    by simp
  have z: "keypoint_G frame_e_Iy frame_e_Ix 3 (1, 5) = ((0, 0), (0, 0))"
    by code_simp
  then have d: "fst (keypoint_G frame_e_Iy frame_e_Ix 3 (1, 5)) = (0, 0)
      \<or> snd (keypoint_G frame_e_Iy frame_e_Ix 3 (1, 5)) = (0, 0)"
    by simp
  from zero_row_G_aborts_call [OF g m d, of frame_e 1 None] g m z
  show ?thesis by blast
qed

subsection \<open>The iterative refiner\<close>

lemma repeat_update_iterates:
  "(\<forall>n<K. step (f n) = Inr (f (Suc n))) \<Longrightarrow> repeat_update K step (f 0) = Inr (f K)"
proof (induction K arbitrary: f)
  case 0
  show ?case by simp
next
  case (Suc K)
  from Suc.prems have "step (f 0) = Inr (f (Suc 0))" by simp
  moreover from Suc.prems have "\<forall>n<K. step ((f \<circ> Suc) n) = Inr ((f \<circ> Suc) (Suc n))" by simp
  then have "repeat_update K step ((f \<circ> Suc) 0) = Inr ((f \<circ> Suc) K)" by (rule Suc.IH)
  ultimately show ?case by simp
qed

lemma broadcast_same_length:
  "length xs = length ys \<Longrightarrow> broadcast f xs ys = Inr (map2 f xs ys)"
  by (simp add: broadcast_def)

lemma flow_update_fits:
  assumes "length (target_window img2 w kp g v) = length A"
    and "length Ax = length A" and "length Ay = length A"
  shows "flow_update img2 w A Ax Ay G_inv kp g v
           = Inr (vadd v (matvec G_inv (residual_vector A (target_window img2 w kp g v) Ax Ay)))"
  using assms
  by (cases kp; cases g; cases v)
     (simp add: flow_update_def target_window_def residual_vector_def Let_def
        broadcast_same_length vadd_def)

lemma dot_normal_matrix:
  "((dot Ax Ax, dot Ax Ay), (dot Ax Ay, dot Ay Ay)) = normal_matrix Ax Ay"
  by (simp add: dot_def normal_matrix_def map2_same power2_eq_square)

lemma inverse2_left:
  assumes "det2 M \<noteq> 0"
  shows "mat_mul (inverse2 M) M = ((1, 0), (0, 1))"
proof -
  obtain a b c d where M: "M = ((a, b), (c, d))" by (metis prod.collapse)
  with assms have d: "a * d - b * c \<noteq> 0" by (simp add: det2_def)
  have "d * a / (a * d - b * c) - b * c / (a * d - b * c) = 1"
    using d by (simp add: diff_divide_distrib [symmetric] mult.commute)
  moreover have "a * d / (a * d - b * c) - c * b / (a * d - b * c) = 1"
    using d by (simp add: diff_divide_distrib [symmetric] mult.commute)
  ultimately show ?thesis
    using d by (simp add: M mat_mul_def inverse2_def det2_def mult.commute)
qed

lemma length_py_slice:
  "length (py_slice xs a b) =
     (case slice_bounds (length xs) a b of (lo, hi) \<Rightarrow> min (hi - lo) (length xs - lo))"
  by (auto simp: py_slice_def split: prod.splits)

lemma set_py_slice: "set (py_slice xs a b) \<subseteq> set xs"
  by (auto simp: py_slice_def split: prod.splits dest: in_set_takeD in_set_dropD)

lemma sum_list_constant: "\<forall>x\<in>set xs. f x = c \<Longrightarrow> sum_list (map f xs) = length xs * (c :: nat)"
  by (induction xs) auto

lemma length_window:
  assumes "\<forall>r\<in>set img. length r = W"
  shows "length (concat (window img y x w)) =
           length (py_slice img (y - w) (y + w + 1))
           * (case slice_bounds W (x - w) (x + w + 1) of (lo, hi) \<Rightarrow> min (hi - lo) (W - lo))"
proof -
  let ?rows = "py_slice img (y - w) (y + w + 1)"
  let ?c = "case slice_bounds W (x - w) (x + w + 1) of (lo, hi) \<Rightarrow> min (hi - lo) (W - lo)"
  from assms set_py_slice [of img] have "\<forall>r\<in>set ?rows. length r = W" by blast
  then have "\<forall>r\<in>set ?rows. length (py_slice r (x - w) (x + w + 1)) = ?c"
    by (simp add: length_py_slice)
  then have "sum_list (map (\<lambda>r. length (py_slice r (x - w) (x + w + 1))) ?rows) = length ?rows * ?c"
    by (rule sum_list_constant)
  then show ?thesis
    by (simp add: window_def length_concat comp_def)
qed

lemma window_length_eq:
  assumes "length img = length img'"
    and "\<forall>r\<in>set img. length r = W" and "\<forall>r\<in>set img'. length r = W"
  shows "length (concat (window img y x w)) = length (concat (window img' y x w))"
  using length_window [OF assms(2)] length_window [OF assms(3)] assms(1)
  by (simp add: length_py_slice)

lemma np_gradient_shape:
  assumes "np_gradient img = Inr (Iy, Ix)"
  shows "length Iy = length img" "length Ix = length img"
    "\<forall>r\<in>set Iy. length r = width img" "\<forall>r\<in>set Ix. length r = width img"
  using assms by (auto simp: np_gradient_def Let_def height_def split: if_splits)

lemma for_each_nth:
  "for_each f xs = Inr ys \<Longrightarrow> k < length xs \<Longrightarrow> f (xs ! k) = Inr (ys ! k)"
  by (drule for_each_all2) (simp add: list_all2_conv_all_nth)

text \<open>
  C8. Take a call of \<open>iterative_lucas_kanade\<close> that returns, on a rectangular frame,
  and a keypoint \<open>k\<close> for which each window sampled in the target frame has as many
  samples as the reference window. Then \<open>G\<close>, built from the derivative windows around
  the rounded keypoint, is invertible, its inverse is computed before the repetitions
  and is the same in each, and the flow of the keypoint is the estimate \<open>v = (vx, vy)\<close>
  after \<open>num_iters\<close> repetitions of \<open>v \<leftarrow> v + G\<^sup>-\<^sup>1\<cdot>b\<close>, with \<open>b\<close> from the residual
  \<open>A - B\<close> and \<open>B\<close> the target window at the rounded position keypoint + guess + \<open>v\<close>,
  reported as \<open>(vy, vx)\<close>.
\<close>

theorem refiner_follows_scheme:
  assumes run: "iterative_lucas_kanade img1 img2 keypoints window_size num_iters g = Inr flows"
    and grad: "np_gradient img1 = Inr (Iy, Ix)"
    and rect: "\<forall>r\<in>set img1. length r = width img1"
    and k: "k < length keypoints"
    and kp: "kp = keypoints ! k"
    and gk: "gk = (case g of None \<Rightarrow> (0, 0) | Some gs \<Rightarrow> gs ! k)"
    and fits: "\<forall>n<nat num_iters.
        length (target_window img2 (window_size div 2) kp gk
                  (scheme_flow img1 img2 Iy Ix window_size kp gk n))
          = length (reference_window img1 (window_size div 2) kp)"
  shows "det2 (scheme_G Iy Ix window_size kp) \<noteq> 0
     \<and> mat_mul (inverse2 (scheme_G Iy Ix window_size kp)) (scheme_G Iy Ix window_size kp)
         = ((1, 0), (0, 1))
     \<and> flows ! k = (snd (scheme_flow img1 img2 Iy Ix window_size kp gk (nat num_iters)),
                    fst (scheme_flow img1 img2 Iy Ix window_size kp gk (nat num_iters)))"
proof -
  let ?w = "window_size div 2"
  let ?A = "reference_window img1 ?w kp"
  let ?Ax = "reference_window Ix ?w kp"
  let ?Ay = "reference_window Iy ?w kp"
  let ?G = "scheme_G Iy Ix window_size kp"
  let ?v = "scheme_flow img1 img2 Iy Ix window_size kp gk"
  from run grad obtain gs where
      gs: "gs = (case g of None \<Rightarrow> map (\<lambda>_. (0, 0)) keypoints | Some g' \<Rightarrow> g')"
      and len: "length keypoints = length gs"
      and loop: "for_each (iterative_lucas_kanade_point img1 img2 Iy Ix window_size num_iters)
                   (zip keypoints gs) = Inr flows"
    by (auto simp: iterative_lucas_kanade_def np_hstack_def Let_def split: if_splits sum.splits)
  from gs gk k have "gs ! k = gk"
    by (cases g) simp_all
  moreover from k len have "zip keypoints gs ! k = (keypoints ! k, gs ! k)"
    by simp
  moreover from for_each_nth [OF loop, of k] k len
  have "iterative_lucas_kanade_point img1 img2 Iy Ix window_size num_iters (zip keypoints gs ! k)
          = Inr (flows ! k)"
    by simp
  ultimately
  have point: "iterative_lucas_kanade_point img1 img2 Iy Ix window_size num_iters (kp, gk)
                 = Inr (flows ! k)"
    using kp by simp
  have G: "((dot ?Ax ?Ax, dot ?Ax ?Ay), (dot ?Ax ?Ay, dot ?Ay ?Ay)) = ?G"
    by (simp add: dot_normal_matrix scheme_G_def)
  from point have det: "det2 ?G \<noteq> 0"
    by (auto simp: iterative_lucas_kanade_point_def Let_def G [unfolded reference_window_def]
        linalg_inv_def split: if_splits prod.splits)
  then have inv: "linalg_inv ?G = Inr (inverse2 ?G)"
    by (simp add: linalg_inv_def inverse2_def split: prod.splits)
  from np_gradient_shape [OF grad] rect
  have lenx: "length ?Ax = length ?A" and leny: "length ?Ay = length ?A"
    unfolding reference_window_def by (auto intro!: window_length_eq)
  have "\<forall>n<nat num_iters.
      flow_update img2 ?w ?A ?Ax ?Ay (inverse2 ?G) kp gk (?v n) = Inr (?v (Suc n))"
    using fits lenx leny by (simp add: flow_update_fits scheme_flow_def Let_def)
  then have "repeat_update (nat num_iters) (flow_update img2 ?w ?A ?Ax ?Ay (inverse2 ?G) kp gk) (?v 0)
      = Inr (?v (nat num_iters))"
    by (rule repeat_update_iterates)
  moreover have "?v 0 = (0, 0)" by (simp add: scheme_flow_def)
  ultimately have "iterative_lucas_kanade_point img1 img2 Iy Ix window_size num_iters (kp, gk)
      = Inr (snd (?v (nat num_iters)), fst (?v (nat num_iters)))"
    using inv G
    by (simp add: iterative_lucas_kanade_point_def Let_def reference_window_def
        split: prod.splits)
  with point det inverse2_left [OF det] show ?thesis by simp
qed

lemma frame_b_gradient: "np_gradient frame_b = Inr (frame_b_Iy, frame_b_Ix)"
  by code_simp

lemma frame_b_refined:
  "iterative_lucas_kanade frame_b frame_c [(2, 2)] 3 2 None = Inr [(0, 2)]"
  by code_simp

lemma frame_b_reference: "length (reference_window frame_b (3 div 2) (2, 2)) = 9"
  by code_simp

lemma frame_c_targets:
  "length (target_window frame_c (3 div 2) (2, 2) (0, 0)
             (scheme_flow frame_b frame_c frame_b_Iy frame_b_Ix 3 (2, 2) (0, 0) 0)) = 9"
  "length (target_window frame_c (3 div 2) (2, 2) (0, 0)
             (scheme_flow frame_b frame_c frame_b_Iy frame_b_Ix 3 (2, 2) (0, 0) (Suc 0))) = 9"
  by code_simp+

lemma frame_b_scheme_flow:
  "scheme_flow frame_b frame_c frame_b_Iy frame_b_Ix 3 (2, 2) (0, 0) (nat 2) = (2, 0)"
  by code_simp

theorem refiner_follows_scheme_witness:
  "iterative_lucas_kanade frame_b frame_c [(2, 2)] 3 2 None = Inr [(0, 2)]
   \<and> np_gradient frame_b = Inr (frame_b_Iy, frame_b_Ix)
   \<and> det2 (scheme_G frame_b_Iy frame_b_Ix 3 (2, 2)) \<noteq> 0
   \<and> mat_mul (inverse2 (scheme_G frame_b_Iy frame_b_Ix 3 (2, 2)))
         (scheme_G frame_b_Iy frame_b_Ix 3 (2, 2)) = ((1, 0), (0, 1))
   \<and> [(0, 2)] ! 0
       = (snd (scheme_flow frame_b frame_c frame_b_Iy frame_b_Ix 3 (2, 2) (0, 0) (nat 2)),
          fst (scheme_flow frame_b frame_c frame_b_Iy frame_b_Ix 3 (2, 2) (0, 0) (nat 2)))
   \<and> scheme_flow frame_b frame_c frame_b_Iy frame_b_Ix 3 (2, 2) (0, 0) (nat 2) = (2, 0)"
proof -
  have rect: "\<forall>r\<in>set frame_b. length r = width frame_b"
    by (simp add: frame_b_def width_def)
  have k: "0 < length [(2 :: real, 2 :: real)]"
    by simp
  have kp: "(2, 2) = [(2 :: real, 2 :: real)] ! 0"
    by simp
  have gk: "(0, 0) = (case None :: point list option of None \<Rightarrow> (0, 0) | Some gs \<Rightarrow> gs ! 0)"
    by simp
  have fits: "\<forall>n<nat 2.
      length (target_window frame_c (3 div 2) (2, 2) (0, 0)
                (scheme_flow frame_b frame_c frame_b_Iy frame_b_Ix 3 (2, 2) (0, 0) n))
        = length (reference_window frame_b (3 div 2) (2, 2))"
  proof (intro allI impI)
    fix n :: nat
    assume "n < nat 2"
    then have "n = 0 \<or> n = Suc 0" by auto
    then show "length (target_window frame_c (3 div 2) (2, 2) (0, 0)
                (scheme_flow frame_b frame_c frame_b_Iy frame_b_Ix 3 (2, 2) (0, 0) n))
        = length (reference_window frame_b (3 div 2) (2, 2))"
      using frame_c_targets frame_b_reference by auto
  qed
  from refiner_follows_scheme [OF frame_b_refined frame_b_gradient rect k kp gk fits]
    frame_b_refined frame_b_gradient frame_b_scheme_flow
  show ?thesis by blast
qed

end
